theory Spec2Isabelle
  imports Main "HOL-Library.AList"
begin

section \<open>Parsed notebooks\<close>

text \<open>
  Both scripts work on what \<^verbatim>\<open>json.load\<close> returns: \<^verbatim>\<open>None\<close>, booleans, integers,
  strings, lists and dictionaries with string keys. A Python \<^verbatim>\<open>str\<close> is a sequence of
  Unicode code points, so a string is a list of natural numbers; \<open>str\<close> embeds a literal.
  A dictionary is an association list in insertion order (the order \<^verbatim>\<open>json.load\<close> builds
  and \<^verbatim>\<open>json.dump\<close> writes); \<^verbatim>\<open>json.load\<close> keeps one entry per key. JSON numbers with
  a fraction or an exponent are left out: neither script computes with a number.
\<close>

type_synonym pystr = "nat list"

definition str :: "string \<Rightarrow> pystr" where
  "str s = map of_char s"

datatype json =
    JNull
  | JBool bool
  | JInt int
  | JStr pystr
  | JArr "json list"
  | JObj "(pystr \<times> json) list"

datatype py_error =
    KeyError | IndexError | TypeError | AttributeError
  | JSONDecodeError | UnicodeEncodeError | RecursionError

type_synonym 'a result = "py_error + 'a"

definition bind :: "'a result \<Rightarrow> ('a \<Rightarrow> 'b result) \<Rightarrow> 'b result" where
  "bind m f = (case m of Inl e \<Rightarrow> Inl e | Inr x \<Rightarrow> f x)"

subsection \<open>The Python operations the scripts apply to parsed values\<close>

text \<open>\<^verbatim>\<open>d[key]\<close> with a string key: only a dictionary holding the key answers.\<close>

definition py_getitem :: "json \<Rightarrow> pystr \<Rightarrow> json result" where
  "py_getitem d k =
     (case d of
        JObj kv \<Rightarrow> (case map_of kv k of None \<Rightarrow> Inl KeyError | Some v \<Rightarrow> Inr v)
      | _ \<Rightarrow> Inl TypeError)"

text \<open>\<^verbatim>\<open>d.get(key, default)\<close>: only dictionaries have the method.\<close>

definition py_get_default :: "json \<Rightarrow> pystr \<Rightarrow> json \<Rightarrow> json result" where
  "py_get_default d k dflt =
     (case d of
        JObj kv \<Rightarrow> (case map_of kv k of None \<Rightarrow> Inr dflt | Some v \<Rightarrow> Inr v)
      | JNull \<Rightarrow> Inl AttributeError
      | JBool _ \<Rightarrow> Inl AttributeError
      | JInt _ \<Rightarrow> Inl AttributeError
      | JStr _ \<Rightarrow> Inl AttributeError
      | JArr _ \<Rightarrow> Inl AttributeError)"

text \<open>\<^verbatim>\<open>d.get(key)\<close> is \<^verbatim>\<open>d.get(key, None)\<close>.\<close>

definition py_get :: "json \<Rightarrow> pystr \<Rightarrow> json result" where
  "py_get d k = py_get_default d k JNull"

text \<open>
  \<^verbatim>\<open>==\<close> on parsed values: \<^verbatim>\<open>True\<close> and \<^verbatim>\<open>False\<close> are the integers 1 and 0, lists are
  compared item by item, dictionaries key by key whatever the order.
\<close>

fun py_eq :: "json \<Rightarrow> json \<Rightarrow> bool" where
  "py_eq JNull JNull = True"
| "py_eq (JBool a) (JBool b) = (a = b)"
| "py_eq (JBool a) (JInt b) = ((if a then 1 else 0) = b)"
| "py_eq (JInt a) (JBool b) = (a = (if b then 1 else 0))"
| "py_eq (JInt a) (JInt b) = (a = b)"
| "py_eq (JStr a) (JStr b) = (a = b)"
| "py_eq (JArr xs) (JArr ys) = list_all2 py_eq xs ys"
| "py_eq (JObj xs) (JObj ys) =
     (set (map fst xs) = set (map fst ys) \<and>
      list_all (\<lambda>(k, v). case map_of ys k of None \<Rightarrow> False | Some w \<Rightarrow> py_eq v w) xs)"
| "py_eq _ _ = False"

text \<open>\<^verbatim>\<open>key in d\<close>, used by the source on values on which \<^verbatim>\<open>.get\<close> has already succeeded.\<close>

definition py_contains :: "json \<Rightarrow> pystr \<Rightarrow> bool result" where
  "py_contains d k =
     (case d of
        JObj kv \<Rightarrow> Inr (map_of kv k \<noteq> None)
      | JStr s \<Rightarrow> Inr (list_ex (\<lambda>i. take (length k) (drop i s) = k) [0..<Suc (length s)])
      | JArr xs \<Rightarrow> Inr (list_ex (\<lambda>x. py_eq x (JStr k)) xs)
      | _ \<Rightarrow> Inl TypeError)"

text \<open>\<^verbatim>\<open>d[key] = value\<close> with a string key: a dictionary replaces the entry in place or
  appends a new one.\<close>

definition py_setitem :: "json \<Rightarrow> pystr \<Rightarrow> json \<Rightarrow> json result" where
  "py_setitem d k v =
     (case d of
        JObj kv \<Rightarrow> Inr (JObj (AList.update k v kv))
      | _ \<Rightarrow> Inl TypeError)"

text \<open>\<^verbatim>\<open>len(x)\<close>: lists, strings and dictionaries have a length.\<close>

definition py_len :: "json \<Rightarrow> nat result" where
  "py_len x =
     (case x of
        JArr xs \<Rightarrow> Inr (length xs)
      | JStr s \<Rightarrow> Inr (length s)
      | JObj kv \<Rightarrow> Inr (length kv)
      | _ \<Rightarrow> Inl TypeError)"

text \<open>
  \<^verbatim>\<open>x[i]\<close> for \<open>i\<close> below \<open>len(x)\<close>: an element of a list, a one-character string of
  a string; a dictionary read from JSON has no integer key.
\<close>

definition py_index :: "json \<Rightarrow> nat \<Rightarrow> json result" where
  "py_index x i =
     (case x of
        JArr xs \<Rightarrow> (if i < length xs then Inr (xs ! i) else Inl IndexError)
      | JStr s \<Rightarrow> (if i < length s then Inr (JStr [s ! i]) else Inl IndexError)
      | JObj kv \<Rightarrow> Inl KeyError
      | _ \<Rightarrow> Inl TypeError)"

text \<open>Iteration, as \<^verbatim>\<open>zip\<close> and \<^verbatim>\<open>''.join\<close> do it: a dictionary yields its keys.\<close>

definition py_iter :: "json \<Rightarrow> json list result" where
  "py_iter x =
     (case x of
        JArr xs \<Rightarrow> Inr xs
      | JStr s \<Rightarrow> Inr (map (\<lambda>c. JStr [c]) s)
      | JObj kv \<Rightarrow> Inr (map (\<lambda>(k, v). JStr k) kv)
      | _ \<Rightarrow> Inl TypeError)"

text \<open>\<^verbatim>\<open>''.join(x)\<close>: every item must be a string.\<close>

fun join_items :: "json list \<Rightarrow> pystr result" where
  "join_items [] = Inr []"
| "join_items (JStr s # xs) = bind (join_items xs) (\<lambda>r. Inr (s @ r))"
| "join_items (_ # xs) = Inl TypeError"

definition py_join :: "json \<Rightarrow> pystr result" where
  "py_join x = bind (py_iter x) join_items"

text \<open>Truth value of a parsed value, as \<^verbatim>\<open>and\<close>, \<^verbatim>\<open>not\<close> and \<^verbatim>\<open>all\<close> take it.\<close>

fun py_truthy :: "json \<Rightarrow> bool" where
  "py_truthy JNull = False"
| "py_truthy (JBool b) = b"
| "py_truthy (JInt i) = (i \<noteq> 0)"
| "py_truthy (JStr s) = (s \<noteq> [])"
| "py_truthy (JArr xs) = (xs \<noteq> [])"
| "py_truthy (JObj kv) = (kv \<noteq> [])"

text \<open>
  \<^verbatim>\<open>str.isspace\<close> for one code point (the table of CPython's
  \<^verbatim>\<open>_PyUnicode_IsWhitespace\<close>), and \<^verbatim>\<open>s.strip()\<close>.
\<close>

definition is_space :: "nat \<Rightarrow> bool" where
  "is_space c =
     ((9 \<le> c \<and> c \<le> 13) \<or> (28 \<le> c \<and> c \<le> 32) \<or> c = 133 \<or> c = 160 \<or> c = 5760 \<or>
      (8192 \<le> c \<and> c \<le> 8202) \<or> c = 8232 \<or> c = 8233 \<or> c = 8239 \<or> c = 8287 \<or>
      c = 12288)"

definition py_strip :: "pystr \<Rightarrow> pystr" where
  "py_strip s = rev (dropWhile is_space (rev (dropWhile is_space s)))"

subsection \<open>Field names\<close>

definition k_cells :: pystr where "k_cells = str ''cells''"
definition k_cell_type :: pystr where "k_cell_type = str ''cell_type''"
definition k_source :: pystr where "k_source = str ''source''"
definition k_outputs :: pystr where "k_outputs = str ''outputs''"
definition k_execution_count :: pystr where "k_execution_count = str ''execution_count''"
definition k_metadata :: pystr where "k_metadata = str ''metadata''"
definition k_kernelspec :: pystr where "k_kernelspec = str ''kernelspec''"
definition k_name :: pystr where "k_name = str ''name''"
definition s_code :: pystr where "s_code = str ''code''"
definition s_markdown :: pystr where "s_markdown = str ''markdown''"

section \<open>The synchronizer (sync_outputs.py)\<close>

text \<open>
  \<open>sync_notebook_outputs\<close> reads two files, changes the parsed translated notebook in
  memory and writes it back. A file is modelled by what \<^verbatim>\<open>json.load\<close> makes of it: the
  parsed value, or nothing when \<^verbatim>\<open>json.load\<close> returns no value (it then raises, for a text
  that is not JSON a \<^verbatim>\<open>JSONDecodeError\<close>). The function is modelled with the file it leaves
  at \<^verbatim>\<open>translated_path\<close> and with the number it returns or the exception it raises. That
  a file can be opened, read and written at all is taken for granted.
\<close>

type_synonym json_file = "json option"

text \<open>Lines 11 to 15: \<^verbatim>\<open>json.load\<close>.\<close>

definition json_load :: "json_file \<Rightarrow> json result" where
  "json_load f = (case f of None \<Rightarrow> Inl JSONDecodeError | Some v \<Rightarrow> Inr v)"

text \<open>
  Lines 42 and 43: the file is opened with \<^verbatim>\<open>encoding='utf-8'\<close> and the notebook is
  written with \<^verbatim>\<open>ensure_ascii=False\<close> and an indent. The encoder walks the value in
  document order and writes it piece by piece, a key before its value. Two things stop
  it on a value that \<^verbatim>\<open>json.load\<close> has built:
  \<^item> every string goes to the utf-8 codec as it is, and the codec refuses the surrogates
    D800 to DFFF, which \<^verbatim>\<open>json.load\<close> builds from an escape sequence that names one
    alone (\<^verbatim>\<open>UnicodeEncodeError\<close>);
  \<^item> with an indent the encoder is the recursive one written in Python, which enters
    one more call for every list or dictionary inside another, until the recursion limit
    of the interpreter (\<^verbatim>\<open>RecursionError\<close>). How many lists and dictionaries may be
    nested depends on the interpreter and on its settings, so this number is a parameter,
    \<open>depth_limit\<close>.
  \<open>dump_error\<close> is the first exception the encoder meets, if any.
\<close>

definition encodable_str :: "pystr \<Rightarrow> bool" where
  "encodable_str s = list_all (\<lambda>c. c < 55296 \<or> (57343 < c \<and> c < 1114112)) s"

fun first_error :: "py_error option list \<Rightarrow> py_error option" where
  "first_error [] = None"
| "first_error (None # rest) = first_error rest"
| "first_error (Some e # rest) = Some e"

fun dump_error :: "nat \<Rightarrow> json \<Rightarrow> py_error option" where
  "dump_error depth_limit JNull = None"
| "dump_error depth_limit (JBool b) = None"
| "dump_error depth_limit (JInt i) = None"
| "dump_error depth_limit (JStr s) =
     (if encodable_str s then None else Some UnicodeEncodeError)"
| "dump_error 0 (JArr xs) = Some RecursionError"
| "dump_error (Suc depth_limit) (JArr xs) = first_error (map (dump_error depth_limit) xs)"
| "dump_error 0 (JObj kv) = Some RecursionError"
| "dump_error (Suc depth_limit) (JObj kv) =
     first_error
       (map (\<lambda>(k, v). if encodable_str k then dump_error depth_limit v
                      else Some UnicodeEncodeError) kv)"

text \<open>
  \<^verbatim>\<open>json.dump\<close> into the file just opened for writing: the file holds the notebook
  afterwards, or the encoder raises.
\<close>

definition json_dump :: "nat \<Rightarrow> json \<Rightarrow> json_file result" where
  "json_dump depth_limit nb =
     (case dump_error depth_limit nb of None \<Rightarrow> Inr (Some nb) | Some e \<Rightarrow> Inl e)"

text \<open>Line 32: \<^verbatim>\<open>orig_cell.get('cell_type') == 'code' and trans_cell.get('cell_type') == 'code'\<close>;
  the right operand is evaluated only when the left one is true.\<close>

definition both_code :: "json \<Rightarrow> json \<Rightarrow> bool result" where
  "both_code orig_cell trans_cell =
     bind (py_get orig_cell k_cell_type) (\<lambda>orig_type.
       if py_eq orig_type (JStr s_code)
       then bind (py_get trans_cell k_cell_type) (\<lambda>trans_type.
              Inr (py_eq trans_type (JStr s_code)))
       else Inr False)"

text \<open>Line 33: \<^verbatim>\<open>'outputs' in orig_cell and len(orig_cell['outputs']) > 0\<close>.\<close>

definition has_outputs :: "json \<Rightarrow> bool result" where
  "has_outputs orig_cell =
     bind (py_contains orig_cell k_outputs) (\<lambda>present.
       if present
       then bind (py_getitem orig_cell k_outputs) (\<lambda>outputs.
              bind (py_len outputs) (\<lambda>n. Inr (0 < n)))
       else Inr False)"

text \<open>Lines 33 to 35.\<close>

definition copy_outputs :: "json \<Rightarrow> json \<times> nat \<Rightarrow> (json \<times> nat) result" where
  "copy_outputs orig_cell st =
     (case st of (trans_cell, outputs_copied) \<Rightarrow>
        bind (has_outputs orig_cell) (\<lambda>b.
          if b
          then bind (py_getitem orig_cell k_outputs) (\<lambda>outputs.
                 bind (py_setitem trans_cell k_outputs outputs) (\<lambda>trans_cell'.
                   Inr (trans_cell', outputs_copied + 1)))
          else Inr (trans_cell, outputs_copied)))"

text \<open>Lines 38 and 39.\<close>

definition copy_execution_count :: "json \<Rightarrow> json \<Rightarrow> json result" where
  "copy_execution_count orig_cell trans_cell =
     bind (py_contains orig_cell k_execution_count) (\<lambda>present.
       if present
       then bind (py_getitem orig_cell k_execution_count) (\<lambda>execution_count.
              py_setitem trans_cell k_execution_count execution_count)
       else Inr trans_cell)"

text \<open>The loop body on the two cells, lines 32 to 39: the translated cell and the counter
  after it.\<close>

definition sync_cell :: "json \<Rightarrow> json \<Rightarrow> nat \<Rightarrow> (json \<times> nat) result" where
  "sync_cell orig_cell trans_cell outputs_copied =
     bind (both_code orig_cell trans_cell) (\<lambda>b.
       if b
       then bind (copy_outputs orig_cell (trans_cell, outputs_copied)) (\<lambda>st.
              case st of (trans_cell', outputs_copied') \<Rightarrow>
                bind (copy_execution_count orig_cell trans_cell') (\<lambda>trans_cell''.
                  Inr (trans_cell'', outputs_copied')))
       else Inr (trans_cell, outputs_copied))"

text \<open>
  \<open>trans_cell\<close> is the object inside \<^verbatim>\<open>translated_nb['cells']\<close>, so assigning to its keys
  changes the notebook. \<open>store_cell\<close> puts the cell after the body back at its index.
  Only a cell of a list can have been assigned to (\<^verbatim>\<open>.get\<close> fails on the characters of a
  string), and a cell that was not assigned to is stored back unchanged.
\<close>

definition store_cell :: "json \<Rightarrow> nat \<Rightarrow> json \<Rightarrow> json" where
  "store_cell nb i c =
     (case nb of
        JObj kv \<Rightarrow>
          (case map_of kv k_cells of
             Some (JArr cs) \<Rightarrow> JObj (AList.update k_cells (JArr (cs[i := c])) kv)
           | _ \<Rightarrow> nb)
      | _ \<Rightarrow> nb)"

text \<open>One iteration of the loop of lines 27 to 39, at index \<open>i\<close>.\<close>

definition sync_step :: "json \<Rightarrow> nat \<Rightarrow> json \<times> nat \<Rightarrow> (json \<times> nat) result" where
  "sync_step original_nb i st =
     (case st of (translated_nb, outputs_copied) \<Rightarrow>
        bind (py_getitem original_nb k_cells) (\<lambda>orig_cells.
        bind (py_index orig_cells i) (\<lambda>orig_cell.
        bind (py_getitem translated_nb k_cells) (\<lambda>trans_cells.
        bind (py_index trans_cells i) (\<lambda>trans_cell.
        bind (sync_cell orig_cell trans_cell outputs_copied) (\<lambda>r.
          case r of (trans_cell', outputs_copied') \<Rightarrow>
            Inr (store_cell translated_nb i trans_cell', outputs_copied')))))))"

fun sync_loop :: "json \<Rightarrow> nat list \<Rightarrow> json \<times> nat \<Rightarrow> (json \<times> nat) result" where
  "sync_loop original_nb [] st = Inr st"
| "sync_loop original_nb (i # rest) st =
     bind (sync_step original_nb i st) (sync_loop original_nb rest)"

text \<open>Lines 17 to 39, on the two parsed notebooks: the translated notebook and
  \<^verbatim>\<open>outputs_copied\<close> after the loop.\<close>

definition sync_notebooks :: "json \<Rightarrow> json \<Rightarrow> (json \<times> nat) result" where
  "sync_notebooks original_nb translated_nb =
     bind (py_getitem original_nb k_cells) (\<lambda>orig_cells.
     bind (py_len orig_cells) (\<lambda>orig_len.
     bind (py_getitem translated_nb k_cells) (\<lambda>trans_cells.
     bind (py_len trans_cells) (\<lambda>trans_len.
       let min_cells = (if orig_len \<noteq> trans_len then min orig_len trans_len else orig_len)
       in sync_loop original_nb [0..<min_cells] (translated_nb, 0)))))"

text \<open>
  The whole function, lines 11 to 46. An exception before line 42 leaves the translated
  file as it was. Line 42 opens the file for writing, which empties it; when the encoder
  then raises, the file keeps only the text written so far, which is not a JSON document
  any more, and the function returns nothing.
\<close>

definition sync_notebook_outputs ::
  "nat \<Rightarrow> json_file \<Rightarrow> json_file \<Rightarrow> json_file \<times> nat result"
where
  "sync_notebook_outputs depth_limit original_file translated_file =
     (case bind (json_load original_file) (\<lambda>original_nb.
           bind (json_load translated_file) (\<lambda>translated_nb.
             sync_notebooks original_nb translated_nb)) of
        Inl e \<Rightarrow> (translated_file, Inl e)
      | Inr (translated_nb, outputs_copied) \<Rightarrow>
          (case json_dump depth_limit translated_nb of
             Inl e \<Rightarrow> (None, Inl e)
           | Inr written \<Rightarrow> (written, Inr outputs_copied)))"

section \<open>The validator (validate_translation.py)\<close>

text \<open>
  An issue is the text a check appends to \<^verbatim>\<open>self.issues\<close>. The model keeps what the
  f-string prints (the counts, the indices, the values, the excerpts, the exception) as
  the arguments of a constructor, one constructor for each message of the source.
\<close>

datatype check_name =
  Cell_count | Cell_types | Code_cells | Markdown_translation | Outputs_present | Metadata

datatype code_line =
    Code_differs nat
  | Original_excerpt pystr
  | Translated_excerpt pystr

datatype issue =
    Cell_count_mismatch nat nat
  | Cell_type_mismatches "(nat \<times> json \<times> json) list"
  | Code_cell_mismatches "code_line list"
  | All_markdown_identical nat
  | Missing_outputs "(nat \<times> nat) list"
  | Kernel_mismatch json json
  | Error_in check_name py_error

record validator =
  original :: json
  translated :: json
  issues :: "issue list"

text \<open>\<^verbatim>\<open>__init__\<close> after the two files are parsed.\<close>

definition NotebookValidator :: "json \<Rightarrow> json \<Rightarrow> validator" where
  "NotebookValidator original_nb translated_nb =
     \<lparr>original = original_nb, translated = translated_nb, issues = []\<rparr>"

text \<open>
  A check returns its return value (\<^verbatim>\<open>True\<close>, \<^verbatim>\<open>False\<close> or \<^verbatim>\<open>None\<close>) and
  \<^verbatim>\<open>self.issues\<close> as it leaves it. Every check appends to \<^verbatim>\<open>self.issues\<close> only in its
  last statements, after everything that can raise, and assigns to nothing else, so a
  check that raises leaves the validator as it found it.
\<close>

type_synonym check = "validator \<Rightarrow> (json \<times> issue list) result"

definition validate_cell_count :: check where
  "validate_cell_count self =
     bind (py_getitem (original self) k_cells) (\<lambda>orig_cells.
     bind (py_len orig_cells) (\<lambda>orig_count.
     bind (py_getitem (translated self) k_cells) (\<lambda>trans_cells.
     bind (py_len trans_cells) (\<lambda>trans_count.
       if orig_count \<noteq> trans_count
       then Inr (JBool False, issues self @ [Cell_count_mismatch orig_count trans_count])
       else Inr (JBool True, issues self)))))"

text \<open>\<^verbatim>\<open>zip(self.original['cells'], self.translated['cells'])\<close>: both arguments are
  evaluated, then \<^verbatim>\<open>zip\<close> asks each for an iterator.\<close>

definition zip_cells :: "validator \<Rightarrow> (json \<times> json) list result" where
  "zip_cells self =
     bind (py_getitem (original self) k_cells) (\<lambda>orig_cells.
     bind (py_getitem (translated self) k_cells) (\<lambda>trans_cells.
     bind (py_iter orig_cells) (\<lambda>xs.
     bind (py_iter trans_cells) (\<lambda>ys.
       Inr (zip xs ys)))))"

text \<open>\<^verbatim>\<open>''.join(cell.get('source', []))\<close>.\<close>

definition cell_source :: "json \<Rightarrow> pystr result" where
  "cell_source cell = bind (py_get_default cell k_source (JArr [])) py_join"

text \<open>The loops over \<^verbatim>\<open>enumerate(zip(...))\<close>: the index, the pairs still to visit, and
  the local variables of the loop.\<close>

fun cell_types_loop ::
  "nat \<Rightarrow> (json \<times> json) list \<Rightarrow> (nat \<times> json \<times> json) list \<Rightarrow> (nat \<times> json \<times> json) list result"
where
  "cell_types_loop i [] mismatches = Inr mismatches"
| "cell_types_loop i ((orig_cell, trans_cell) # rest) mismatches =
     bind (py_get orig_cell k_cell_type) (\<lambda>orig_type.
     bind (py_get trans_cell k_cell_type) (\<lambda>trans_type.
       cell_types_loop (Suc i) rest
         (if \<not> py_eq orig_type trans_type
          then mismatches @ [(i, orig_type, trans_type)]
          else mismatches)))"

definition validate_cell_types :: check where
  "validate_cell_types self =
     bind (zip_cells self) (\<lambda>pairs.
     bind (cell_types_loop 0 pairs []) (\<lambda>mismatches.
       if mismatches \<noteq> []
       then Inr (JBool False, issues self @ [Cell_type_mismatches mismatches])
       else Inr (JBool True, issues self)))"

fun code_cells_loop ::
  "nat \<Rightarrow> (json \<times> json) list \<Rightarrow> code_line list \<Rightarrow> code_line list result"
where
  "code_cells_loop i [] mismatches = Inr mismatches"
| "code_cells_loop i ((orig_cell, trans_cell) # rest) mismatches =
     bind (py_get orig_cell k_cell_type) (\<lambda>orig_type.
       if \<not> py_eq orig_type (JStr s_code)
       then code_cells_loop (Suc i) rest mismatches
       else
         bind (cell_source orig_cell) (\<lambda>orig_source.
         bind (cell_source trans_cell) (\<lambda>trans_source.
           code_cells_loop (Suc i) rest
             (if orig_source \<noteq> trans_source
              then
                (if length orig_source < 100
                 then mismatches @ [Code_differs i] @
                        [Original_excerpt (take 100 orig_source)] @
                        [Translated_excerpt (take 100 trans_source)]
                 else mismatches @ [Code_differs i])
              else mismatches))))"

definition validate_code_cells :: check where
  "validate_code_cells self =
     bind (zip_cells self) (\<lambda>pairs.
     bind (code_cells_loop 0 pairs []) (\<lambda>mismatches.
       if mismatches \<noteq> []
       then Inr (JBool False, issues self @ [Code_cell_mismatches mismatches])
       else Inr (JBool True, issues self)))"

text \<open>The state of the markdown loop is \<open>(identical_count, total_markdown)\<close>.\<close>

fun markdown_loop :: "(json \<times> json) list \<Rightarrow> nat \<times> nat \<Rightarrow> (nat \<times> nat) result" where
  "markdown_loop [] st = Inr st"
| "markdown_loop ((orig_cell, trans_cell) # rest) (identical_count, total_markdown) =
     bind (py_get orig_cell k_cell_type) (\<lambda>orig_type.
       if \<not> py_eq orig_type (JStr s_markdown)
       then markdown_loop rest (identical_count, total_markdown)
       else
         bind (cell_source orig_cell) (\<lambda>orig_source.
         bind (cell_source trans_cell) (\<lambda>trans_source.
           if py_strip orig_source = []
           then markdown_loop rest (identical_count, total_markdown + 1)
           else if orig_source = trans_source
           then markdown_loop rest (identical_count + 1, total_markdown + 1)
           else markdown_loop rest (identical_count, total_markdown + 1))))"

definition validate_markdown_translated :: check where
  "validate_markdown_translated self =
     bind (zip_cells self) (\<lambda>pairs.
     bind (markdown_loop pairs (0, 0)) (\<lambda>st.
       case st of (identical_count, total_markdown) \<Rightarrow>
         if 0 < total_markdown \<and> identical_count = total_markdown
         then Inr (JBool False, issues self @ [All_markdown_identical total_markdown])
         else Inr (JBool True, issues self)))"

fun outputs_loop ::
  "nat \<Rightarrow> (json \<times> json) list \<Rightarrow> (nat \<times> nat) list \<Rightarrow> (nat \<times> nat) list result"
where
  "outputs_loop i [] missing_outputs = Inr missing_outputs"
| "outputs_loop i ((orig_cell, trans_cell) # rest) missing_outputs =
     bind (py_get orig_cell k_cell_type) (\<lambda>orig_type.
       if \<not> py_eq orig_type (JStr s_code)
       then outputs_loop (Suc i) rest missing_outputs
       else
         bind (py_get_default orig_cell k_outputs (JArr [])) (\<lambda>orig_outputs.
         bind (py_get_default trans_cell k_outputs (JArr [])) (\<lambda>trans_outputs.
         bind (py_len orig_outputs) (\<lambda>orig_n.
           if 0 < orig_n
           then bind (py_len trans_outputs) (\<lambda>trans_n.
                  outputs_loop (Suc i) rest
                    (if trans_n = 0 then missing_outputs @ [(i, orig_n)]
                     else missing_outputs))
           else outputs_loop (Suc i) rest missing_outputs))))"

definition validate_outputs_present :: check where
  "validate_outputs_present self =
     bind (zip_cells self) (\<lambda>pairs.
     bind (outputs_loop 0 pairs []) (\<lambda>missing_outputs.
       if missing_outputs \<noteq> []
       then Inr (JBool False, issues self @ [Missing_outputs missing_outputs])
       else Inr (JBool True, issues self)))"

text \<open>\<^verbatim>\<open>nb.get('metadata', {}).get('kernelspec', {}).get('name')\<close>.\<close>

definition kernel_name :: "json \<Rightarrow> json result" where
  "kernel_name nb =
     bind (py_get_default nb k_metadata (JObj [])) (\<lambda>metadata.
     bind (py_get_default metadata k_kernelspec (JObj [])) (\<lambda>kernelspec.
       py_get kernelspec k_name))"

text \<open>\<open>validate_metadata\<close> has no \<^verbatim>\<open>return\<close> statement: it returns \<^verbatim>\<open>None\<close>.\<close>

definition validate_metadata :: check where
  "validate_metadata self =
     bind (kernel_name (original self)) (\<lambda>orig_kernel.
     bind (kernel_name (translated self)) (\<lambda>trans_kernel.
       if py_truthy orig_kernel \<and> py_truthy trans_kernel \<and> \<not> py_eq orig_kernel trans_kernel
       then Inr (JNull, issues self @ [Kernel_mismatch orig_kernel trans_kernel])
       else Inr (JNull, issues self)))"

definition validations :: "(check_name \<times> check) list" where
  "validations =
     [(Cell_count, validate_cell_count),
      (Cell_types, validate_cell_types),
      (Code_cells, validate_code_cells),
      (Markdown_translation, validate_markdown_translated),
      (Outputs_present, validate_outputs_present),
      (Metadata, validate_metadata)]"

text \<open>The loop of lines 131 to 136 with its \<^verbatim>\<open>try\<close>; \<^verbatim>\<open>results[name] = ...\<close> is
  \<open>AList.update\<close>.\<close>

fun run_validations ::
  "(check_name \<times> check) list \<Rightarrow> validator \<Rightarrow> (check_name \<times> json) list \<Rightarrow>
     (check_name \<times> json) list \<times> validator"
where
  "run_validations [] self results = (results, self)"
| "run_validations ((name, validation_func) # rest) self results =
     (case validation_func self of
        Inr (r, issues') \<Rightarrow>
          run_validations rest (self\<lparr>issues := issues'\<rparr>) (AList.update name r results)
      | Inl e \<Rightarrow>
          run_validations rest (self\<lparr>issues := issues self @ [Error_in name e]\<rparr>)
            (AList.update name (JBool False) results))"

text \<open>\<open>run_all_validations\<close> returns \<^verbatim>\<open>results\<close>; the validator it leaves holds the
  issues the caller reads.\<close>

definition run_all_validations :: "validator \<Rightarrow> (check_name \<times> json) list \<times> validator" where
  "run_all_validations self = run_validations validations self []"

text \<open>Lines 173 and 174 of \<^verbatim>\<open>main\<close>: \<^verbatim>\<open>all(results.values())\<close> and whether the file is
  printed with the PASS status.\<close>

definition all_passed :: "(check_name \<times> json) list \<Rightarrow> bool" where
  "all_passed results = list_all py_truthy (map snd results)"

definition status_pass :: "json \<Rightarrow> json \<Rightarrow> bool" where
  "status_pass original_nb translated_nb =
     (case run_all_validations (NotebookValidator original_nb translated_nb) of
        (results, validator') \<Rightarrow> all_passed results \<and> issues validator' = [])"

section \<open>Vocabulary of the properties\<close>

text \<open>
  \<open>field\<close> reads a key of a cell or a notebook, \<open>cells_of\<close> the cell list of a
  notebook. A cell is of kind code or markdown by the string under \<^verbatim>\<open>cell_type\<close>.
\<close>

definition field :: "json \<Rightarrow> pystr \<Rightarrow> json option" where
  "field c k = (case c of JObj kv \<Rightarrow> map_of kv k | _ \<Rightarrow> None)"

definition cells_of :: "json \<Rightarrow> json list" where
  "cells_of nb = (case field nb k_cells of Some (JArr cs) \<Rightarrow> cs | _ \<Rightarrow> [])"

definition is_code :: "json \<Rightarrow> bool" where
  "is_code c = (field c k_cell_type = Some (JStr s_code))"

definition is_markdown :: "json \<Rightarrow> bool" where
  "is_markdown c = (field c k_cell_type = Some (JStr s_markdown))"

text \<open>The outputs of a cell, and the joined text of its \<^verbatim>\<open>source\<close>.\<close>

definition outputs_of :: "json \<Rightarrow> json list" where
  "outputs_of c = (case field c k_outputs of Some (JArr outs) \<Rightarrow> outs | _ \<Rightarrow> [])"

definition nonempty_outputs :: "json \<Rightarrow> bool" where
  "nonempty_outputs c = (case field c k_outputs of Some (JArr outs) \<Rightarrow> outs \<noteq> [] | _ \<Rightarrow> False)"

definition source_text :: "json \<Rightarrow> pystr" where
  "source_text c = (case cell_source c of Inr s \<Rightarrow> s | Inl e \<Rightarrow> [])"

text \<open>The number of aligned positions: the length of the shorter cell list.\<close>

definition aligned :: "json \<Rightarrow> json \<Rightarrow> nat" where
  "aligned original_nb translated_nb =
     min (length (cells_of original_nb)) (length (cells_of translated_nb))"

text \<open>
  A value the encoder writes without raising: no lone surrogate in a key or a string, and
  lists and dictionaries nested at most \<open>depth_limit\<close> deep.
\<close>

definition writable :: "nat \<Rightarrow> json \<Rightarrow> bool" where
  "writable depth_limit nb = (dump_error depth_limit nb = None)"

text \<open>
  The notebooks of the data model. A well-formed notebook is a dictionary with a list
  under \<^verbatim>\<open>cells\<close>; each cell is a dictionary whose \<^verbatim>\<open>outputs\<close>, when present, is a list.
  This is what the synchronizer needs in order not to raise. A readable notebook has,
  moreover, a \<^verbatim>\<open>source\<close> that \<^verbatim>\<open>''.join\<close> accepts in every cell, which is what the loops
  of the validator need.
\<close>

definition wf_cell :: "json \<Rightarrow> bool" where
  "wf_cell c =
     (case c of
        JObj kv \<Rightarrow> (case map_of kv k_outputs of None \<Rightarrow> True | Some (JArr outs) \<Rightarrow> True | Some _ \<Rightarrow> False)
      | _ \<Rightarrow> False)"

definition wf_notebook :: "json \<Rightarrow> bool" where
  "wf_notebook nb =
     (case field nb k_cells of Some (JArr cs) \<Rightarrow> list_all wf_cell cs | _ \<Rightarrow> False)"

definition has_cell_list :: "json \<Rightarrow> bool" where
  "has_cell_list nb = (case field nb k_cells of Some (JArr cs) \<Rightarrow> True | _ \<Rightarrow> False)"

definition readable_cell :: "json \<Rightarrow> bool" where
  "readable_cell c = (wf_cell c \<and> (case cell_source c of Inr s \<Rightarrow> True | Inl e \<Rightarrow> False))"

definition readable_notebook :: "json \<Rightarrow> bool" where
  "readable_notebook nb =
     (case field nb k_cells of Some (JArr cs) \<Rightarrow> list_all readable_cell cs | _ \<Rightarrow> False)"

text \<open>A pair of cells at which the synchronizer copies the outputs.\<close>

definition copied_pair :: "json \<Rightarrow> json \<Rightarrow> bool" where
  "copied_pair orig_cell trans_cell =
     (is_code orig_cell \<and> is_code trans_cell \<and> nonempty_outputs orig_cell)"

text \<open>
  What a check contributes when it is run alone on a fresh validator: its return value
  and its issues, or \<^verbatim>\<open>False\<close> and the error issue when it raises.
\<close>

definition isolated :: "check_name \<Rightarrow> check \<Rightarrow> json \<Rightarrow> json \<Rightarrow> json \<times> issue list" where
  "isolated name validation_func original_nb translated_nb =
     (case validation_func (NotebookValidator original_nb translated_nb) of
        Inr (r, new_issues) \<Rightarrow> (r, new_issues)
      | Inl e \<Rightarrow> (JBool False, [Error_in name e]))"

text \<open>
  What the code check and the outputs check record for one position, and the positions
  an issue of either check names.
\<close>

definition code_lines :: "nat \<Rightarrow> json \<Rightarrow> json \<Rightarrow> code_line list" where
  "code_lines i orig_cell trans_cell =
     (if is_code orig_cell \<and> source_text orig_cell \<noteq> source_text trans_cell
      then
        (if length (source_text orig_cell) < 100
         then [Code_differs i,
               Original_excerpt (take 100 (source_text orig_cell)),
               Translated_excerpt (take 100 (source_text trans_cell))]
         else [Code_differs i])
      else [])"

definition missing_line :: "nat \<Rightarrow> json \<Rightarrow> json \<Rightarrow> (nat \<times> nat) list" where
  "missing_line i orig_cell trans_cell =
     (if is_code orig_cell \<and> outputs_of orig_cell \<noteq> [] \<and> outputs_of trans_cell = []
      then [(i, length (outputs_of orig_cell))]
      else [])"

fun line_index :: "code_line \<Rightarrow> nat list" where
  "line_index (Code_differs i) = [i]"
| "line_index (Original_excerpt s) = []"
| "line_index (Translated_excerpt s) = []"

fun code_flagged :: "issue \<Rightarrow> nat list" where
  "code_flagged (Code_cell_mismatches ls) = concat (map line_index ls)"
| "code_flagged _ = []"

fun outputs_flagged :: "issue \<Rightarrow> nat list" where
  "outputs_flagged (Missing_outputs ms) = map fst ms"
| "outputs_flagged _ = []"

text \<open>
  The condition under which the markdown check fails according to the specification:
  among the positions with markdown on both sides and a non-empty original text there is
  at least one, and all have the same text on both sides.
\<close>

definition claimed_markdown_failure :: "json \<Rightarrow> json \<Rightarrow> bool" where
  "claimed_markdown_failure original_nb translated_nb =
     (let considered =
            filter (\<lambda>(orig_cell, trans_cell).
                      is_markdown orig_cell \<and> is_markdown trans_cell \<and>
                      source_text orig_cell \<noteq> [])
              (zip (cells_of original_nb) (cells_of translated_nb))
      in considered \<noteq> [] \<and>
         list_all (\<lambda>(orig_cell, trans_cell). source_text orig_cell = source_text trans_cell)
           considered)"

section \<open>The synchronizer on well-formed notebooks, as a function\<close>

text \<open>
  The translated cell after the loop body, the notebook after the loop, and the loop as
  a traversal of the paired cells. The lemmas below show that \<open>sync_notebooks\<close>
  computes them.
\<close>

definition synced_cell :: "json \<Rightarrow> json \<Rightarrow> json" where
  "synced_cell orig_cell trans_cell =
     (case orig_cell of
        JObj okv \<Rightarrow>
          (case trans_cell of
             JObj tkv \<Rightarrow>
               if is_code orig_cell \<and> is_code trans_cell
               then
                 JObj
                   ((case map_of okv k_execution_count of
                       None \<Rightarrow> id
                     | Some execution_count \<Rightarrow> AList.update k_execution_count execution_count)
                    ((case map_of okv k_outputs of
                        Some (JArr (out # outs)) \<Rightarrow> AList.update k_outputs (JArr (out # outs))
                      | _ \<Rightarrow> id) tkv))
               else trans_cell
           | _ \<Rightarrow> trans_cell)
      | _ \<Rightarrow> trans_cell)"

definition synced_notebook :: "json \<Rightarrow> json \<Rightarrow> json" where
  "synced_notebook original_nb translated_nb =
     (case translated_nb of
        JObj tkv \<Rightarrow>
          JObj (AList.update k_cells
                  (JArr (map (\<lambda>(orig_cell, trans_cell). synced_cell orig_cell trans_cell)
                           (zip (cells_of original_nb) (cells_of translated_nb)) @
                         drop (aligned original_nb translated_nb) (cells_of translated_nb)))
                  tkv)
      | _ \<Rightarrow> translated_nb)"

fun sync_cells :: "(json \<times> json) list \<Rightarrow> nat \<Rightarrow> (json list \<times> nat) result" where
  "sync_cells [] n = Inr ([], n)"
| "sync_cells ((orig_cell, trans_cell) # rest) n =
     bind (sync_cell orig_cell trans_cell n) (\<lambda>r. case r of (c, n') \<Rightarrow>
       bind (sync_cells rest n') (\<lambda>r'. case r' of (cs, n'') \<Rightarrow> Inr (c # cs, n'')))"

section \<open>Example notebooks\<close>

definition code_cell :: "string list \<Rightarrow> json list \<Rightarrow> json \<Rightarrow> json" where
  "code_cell fragments outs ec =
     JObj [(k_cell_type, JStr s_code),
           (k_source, JArr (map (\<lambda>s. JStr (str s)) fragments)),
           (k_outputs, JArr outs),
           (k_execution_count, ec)]"

definition markdown_cell :: "string list \<Rightarrow> json" where
  "markdown_cell fragments =
     JObj [(k_cell_type, JStr s_markdown),
           (k_source, JArr (map (\<lambda>s. JStr (str s)) fragments))]"

definition notebook :: "json list \<Rightarrow> json" where
  "notebook cs = JObj [(k_cells, JArr cs), (k_metadata, JObj [])]"

definition kernel_notebook :: "json list \<Rightarrow> json \<Rightarrow> json" where
  "kernel_notebook cs name =
     JObj [(k_cells, JArr cs),
           (k_metadata, JObj [(k_kernelspec, JObj [(k_name, name)])])]"

text \<open>Three cells on each side; the translated notebook has its own outputs in the last
  cell.\<close>

definition example_original :: json where
  "example_original =
     notebook [code_cell [''x = 1''] [JStr (str ''out1''), JStr (str ''out2'')] (JInt 1),
               markdown_cell [''Title''],
               code_cell [''y = 2''] [] JNull]"

definition example_translated :: json where
  "example_translated =
     notebook [code_cell [''x = 1''] [] (JInt 7),
               markdown_cell [''Titel''],
               code_cell [''y = 2''] [JStr (str ''old'')] (JInt 5)]"

text \<open>A translated pair with the same kernel, and an original whose \<^verbatim>\<open>metadata\<close> is
  \<^verbatim>\<open>null\<close>.\<close>

definition hello_original :: json where
  "hello_original = kernel_notebook [markdown_cell [''Hello'']] (JStr (str ''python3''))"

definition hello_translated :: json where
  "hello_translated = kernel_notebook [markdown_cell [''Hallo'']] (JStr (str ''python3''))"

definition null_metadata_original :: json where
  "null_metadata_original =
     JObj [(k_cells, JArr [markdown_cell [''Hello'']]), (k_metadata, JNull)]"

text \<open>A code cell facing a markdown cell, a markdown cell facing a code cell with the same
  text, and a notebook with a blank markdown cell.\<close>

definition kind_mismatch_original :: json where
  "kind_mismatch_original = notebook [code_cell [''x = 1''] [JStr (str ''out'')] (JInt 1)]"

definition kind_mismatch_translated :: json where
  "kind_mismatch_translated = notebook [markdown_cell [''x = 2'']]"

definition untranslated_original :: json where
  "untranslated_original = notebook [markdown_cell [''Same text'']]"

definition untranslated_as_code :: json where
  "untranslated_as_code = notebook [code_cell [''Same text''] [] JNull]"

definition blank_cell_notebook :: json where
  "blank_cell_notebook = notebook [markdown_cell [''Same text''], markdown_cell []]"

text \<open>The translated side with a fourth cell, and the same with another fourth cell.\<close>

definition long_translated :: json where
  "long_translated =
     notebook [code_cell [''x = 1''] [] (JInt 7),
               markdown_cell [''Titel''],
               code_cell [''y = 2''] [JStr (str ''old'')] (JInt 5),
               code_cell [''z = 3''] [JStr (str ''kept'')] (JInt 9)]"

definition altered_long_translated :: json where
  "altered_long_translated =
     notebook [code_cell [''x = 1''] [] (JInt 7),
               markdown_cell [''Titel''],
               code_cell [''y = 2''] [JStr (str ''old'')] (JInt 5),
               markdown_cell [''Nachwort'']]"

text \<open>An original whose only output is a string made of one lone surrogate.\<close>

definition surrogate_original :: json where
  "surrogate_original = notebook [code_cell [''x = 1''] [JStr [55296]] (JInt 1)]"

definition surrogate_translated :: json where
  "surrogate_translated = notebook [code_cell [''x = 1''] [] JNull]"

section \<open>Basic facts\<close>

lemma bind_Inl [simp]: "bind (Inl e) f = Inl e"
  by (simp add: bind_def)

lemma bind_Inr [simp]: "bind (Inr x) f = f x"
  by (simp add: bind_def)

lemma bind_eq_Inr: "bind m f = Inr y \<longleftrightarrow> (\<exists>x. m = Inr x \<and> f x = Inr y)"
  by (cases m) simp_all

lemma str_eq_iff [simp]: "str a = str b \<longleftrightarrow> a = b"
  unfolding str_def by (rule inj_map_eq_map) (simp add: inj_on_def)

lemma keys_distinct [simp]:
  "k_outputs \<noteq> k_execution_count" "k_execution_count \<noteq> k_outputs"
  "k_cell_type \<noteq> k_outputs" "k_outputs \<noteq> k_cell_type"
  "k_cell_type \<noteq> k_execution_count" "k_execution_count \<noteq> k_cell_type"
  "s_code \<noteq> s_markdown" "s_markdown \<noteq> s_code"
  by (simp_all add: k_outputs_def k_execution_count_def k_cell_type_def s_code_def s_markdown_def)

lemma py_eq_JStr [simp]: "py_eq v (JStr s) \<longleftrightarrow> v = JStr s"
  by (cases v) auto


section \<open>What the synchronizer computes\<close>

subsection \<open>One pair of cells\<close>

lemma wf_cell_JObj: "wf_cell c \<Longrightarrow> \<exists>kv. c = JObj kv"
  by (cases c) (simp_all add: wf_cell_def)

lemma has_outputs_wf:
  "wf_cell (JObj okv) \<Longrightarrow> has_outputs (JObj okv) = Inr (nonempty_outputs (JObj okv))"
  by (auto simp: has_outputs_def py_contains_def py_getitem_def py_len_def wf_cell_def
        nonempty_outputs_def field_def split: option.splits json.splits)

lemma both_code_wf:
  "both_code (JObj okv) (JObj tkv) = Inr (is_code (JObj okv) \<and> is_code (JObj tkv))"
  by (auto simp: both_code_def py_get_def py_get_default_def is_code_def field_def
        split: option.splits)

lemma copy_outputs_wf:
  "wf_cell (JObj okv) \<Longrightarrow>
     copy_outputs (JObj okv) (JObj tkv, n) =
       Inr (JObj ((case map_of okv k_outputs of
                     Some (JArr (out # outs)) \<Rightarrow> AList.update k_outputs (JArr (out # outs))
                   | _ \<Rightarrow> id) tkv),
            n + (if nonempty_outputs (JObj okv) then 1 else 0))"
  by (auto simp: copy_outputs_def has_outputs_wf py_getitem_def py_setitem_def
        nonempty_outputs_def field_def split: option.splits json.splits list.splits)

lemma copy_execution_count_JObj:
  "copy_execution_count (JObj okv) (JObj tkv) =
     Inr (JObj ((case map_of okv k_execution_count of
                   None \<Rightarrow> id
                 | Some execution_count \<Rightarrow> AList.update k_execution_count execution_count) tkv))"
  by (auto simp: copy_execution_count_def py_contains_def py_getitem_def py_setitem_def
        split: option.splits)

lemma sync_cell_wf:
  assumes "wf_cell orig_cell" "wf_cell trans_cell"
  shows "sync_cell orig_cell trans_cell n =
           Inr (synced_cell orig_cell trans_cell,
                n + (if copied_pair orig_cell trans_cell then 1 else 0))"
proof -
  obtain okv tkv where o: "orig_cell = JObj okv" and t: "trans_cell = JObj tkv"
    using assms wf_cell_JObj by blast
  show ?thesis
    using assms(1) unfolding o t
    by (simp add: sync_cell_def both_code_wf copy_outputs_wf copy_execution_count_JObj
          synced_cell_def copied_pair_def)
qed

subsection \<open>The loop\<close>

lemma sync_step_cells:
  assumes o: "map_of okv k_cells = Some (JArr ocs)"
    and k: "length pre = k" "k < length ocs" "k < length tcs"
  shows "sync_step (JObj okv) k (JObj (AList.update k_cells (JArr (pre @ drop k tcs)) tkv), n) =
           bind (sync_cell (ocs ! k) (tcs ! k) n) (\<lambda>r. case r of (c, n') \<Rightarrow>
             Inr (JObj (AList.update k_cells (JArr ((pre @ [c]) @ drop (Suc k) tcs)) tkv), n'))"
proof -
  have nth: "(pre @ drop k tcs) ! k = tcs ! k"
    using k by (simp add: nth_append)
  have len: "k < length (pre @ drop k tcs)"
    using k by simp
  have upd: "(pre @ drop k tcs)[k := c] = (pre @ [c]) @ drop (Suc k) tcs" for c
    using k by (simp add: list_update_append flip: Cons_nth_drop_Suc)
  show ?thesis
    unfolding sync_step_def
    by (cases "sync_cell (ocs ! k) (tcs ! k) n")
       (simp_all add: py_getitem_def o py_index_def k nth len upd store_cell_def
          AList.update_conv' del: append_assoc split: prod.splits)
qed

lemma sync_loop_cells:
  assumes o: "map_of okv k_cells = Some (JArr ocs)"
    and k: "length pre = k" "k \<le> m" "m \<le> length ocs" "m \<le> length tcs"
  shows "sync_loop (JObj okv) [k..<m]
            (JObj (AList.update k_cells (JArr (pre @ drop k tcs)) tkv), n) =
           bind (sync_cells (zip (drop k (take m ocs)) (drop k (take m tcs))) n)
             (\<lambda>r. case r of (cs, n') \<Rightarrow>
                Inr (JObj (AList.update k_cells (JArr (pre @ cs @ drop m tcs)) tkv), n'))"
  using k
proof (induction "m - k" arbitrary: k pre n)
  case 0
  then have "k = m" by simp
  then show ?case by simp
next
  case (Suc d)
  then have lt: "k < m" "k < length ocs" "k < length tcs" by simp_all
  have upt: "[k..<m] = k # [Suc k..<m]"
    using lt by (simp add: upt_conv_Cons)
  have od: "drop k (take m ocs) = ocs ! k # drop (Suc k) (take m ocs)"
    using lt Suc.prems by (simp flip: Cons_nth_drop_Suc)
  have td: "drop k (take m tcs) = tcs ! k # drop (Suc k) (take m tcs)"
    using lt Suc.prems by (simp flip: Cons_nth_drop_Suc)
  show ?case
  proof (cases "sync_cell (ocs ! k) (tcs ! k) n")
    case (Inl e)
    then show ?thesis
      unfolding upt od td
      by (simp add: sync_step_cells [OF o Suc.prems(1) lt(2) lt(3)])
  next
    case (Inr r)
    obtain c n' where r: "r = (c, n')" by (cases r)
    have ih: "sync_loop (JObj okv) [Suc k..<m]
                 (JObj (AList.update k_cells (JArr ((pre @ [c]) @ drop (Suc k) tcs)) tkv), n') =
              bind (sync_cells (zip (drop (Suc k) (take m ocs)) (drop (Suc k) (take m tcs))) n')
                (\<lambda>r. case r of (cs, n'') \<Rightarrow>
                   Inr (JObj (AList.update k_cells (JArr ((pre @ [c]) @ cs @ drop m tcs)) tkv), n''))"
      using Suc.hyps(2) Suc.prems lt by (intro Suc.hyps(1)) simp_all
    show ?thesis
      unfolding upt od td
      apply (simp add: sync_step_cells [OF o Suc.prems(1) lt(2) lt(3)] Inr r del: append_assoc)
      apply (simp only: ih)
      apply (cases "sync_cells (zip (drop (Suc k) (take m ocs)) (drop (Suc k) (take m tcs))) n'")
       apply (simp_all split: prod.splits)
      done
  qed
qed


lemma sync_notebook_cells:
  assumes o: "map_of okv k_cells = Some (JArr ocs)"
    and t: "map_of tkv k_cells = Some (JArr tcs)"
  shows "sync_notebooks (JObj okv) (JObj tkv) =
           bind (sync_cells (zip ocs tcs) 0)
             (\<lambda>r. case r of (cs, n) \<Rightarrow>
                Inr (JObj (AList.update k_cells
                             (JArr (cs @ drop (min (length ocs) (length tcs)) tcs)) tkv), n))"
proof -
  let ?m = "min (length ocs) (length tcs)"
  have m: "(if length ocs \<noteq> length tcs then min (length ocs) (length tcs) else length ocs) = ?m"
    by simp
  have start: "JObj tkv = JObj (AList.update k_cells (JArr ([] @ drop 0 tcs)) tkv)"
    using t by (simp add: AList.update_triv)
  have z: "zip (drop 0 (take ?m ocs)) (drop 0 (take ?m tcs)) = zip ocs tcs"
    by (simp flip: take_zip)
  have "sync_notebooks (JObj okv) (JObj tkv) =
          sync_loop (JObj okv) [0..<?m] (JObj tkv, 0)"
    unfolding sync_notebooks_def
    by (simp add: py_getitem_def py_len_def o t Let_def del: min.absorb1 min.absorb2)
  also have "\<dots> = sync_loop (JObj okv) [0..<?m]
                     (JObj (AList.update k_cells (JArr ([] @ drop 0 tcs)) tkv), 0)"
    using start by simp
  also have "\<dots> = bind (sync_cells (zip (drop 0 (take ?m ocs)) (drop 0 (take ?m tcs))) 0)
             (\<lambda>r. case r of (cs, n') \<Rightarrow>
                Inr (JObj (AList.update k_cells (JArr ([] @ cs @ drop ?m tcs)) tkv), n'))"
    by (rule sync_loop_cells [OF o]) simp_all
  finally show ?thesis
    unfolding z by simp
qed

lemma sync_cells_wf:
  "list_all (\<lambda>(orig_cell, trans_cell). wf_cell orig_cell \<and> wf_cell trans_cell) pairs \<Longrightarrow>
     sync_cells pairs n =
       Inr (map (\<lambda>(orig_cell, trans_cell). synced_cell orig_cell trans_cell) pairs,
            n + length (filter (\<lambda>(orig_cell, trans_cell). copied_pair orig_cell trans_cell) pairs))"
  by (induction pairs arbitrary: n) (auto simp: sync_cell_wf)

lemma wf_notebook_cells:
  "wf_notebook nb \<Longrightarrow>
     \<exists>kv. nb = JObj kv \<and> map_of kv k_cells = Some (JArr (cells_of nb)) \<and>
          list_all wf_cell (cells_of nb)"
  by (cases nb)
     (auto simp: wf_notebook_def cells_of_def field_def split: option.splits json.splits)

lemma list_all_zip:
  "list_all P xs \<Longrightarrow> list_all Q ys \<Longrightarrow> list_all (\<lambda>(x, y). P x \<and> Q y) (zip xs ys)"
  by (auto simp: list_all_iff dest: set_zip_leftD set_zip_rightD)

lemma sync_notebook_wf:
  assumes "wf_notebook original_nb" "wf_notebook translated_nb"
  shows "sync_notebooks original_nb translated_nb =
           Inr (synced_notebook original_nb translated_nb,
                length (filter (\<lambda>(orig_cell, trans_cell). copied_pair orig_cell trans_cell)
                          (zip (cells_of original_nb) (cells_of translated_nb))))"
proof -
  obtain okv where o: "original_nb = JObj okv"
      "map_of okv k_cells = Some (JArr (cells_of original_nb))"
      "list_all wf_cell (cells_of original_nb)"
    using wf_notebook_cells [OF assms(1)] by blast
  obtain tkv where t: "translated_nb = JObj tkv"
      "map_of tkv k_cells = Some (JArr (cells_of translated_nb))"
      "list_all wf_cell (cells_of translated_nb)"
    using wf_notebook_cells [OF assms(2)] by blast
  have wf: "list_all (\<lambda>(orig_cell, trans_cell). wf_cell orig_cell \<and> wf_cell trans_cell)
              (zip (cells_of original_nb) (cells_of translated_nb))"
    using o(3) t(3) by (rule list_all_zip)
  have "sync_notebooks (JObj okv) (JObj tkv) =
          Inr (synced_notebook original_nb translated_nb,
               length (filter (\<lambda>(orig_cell, trans_cell). copied_pair orig_cell trans_cell)
                         (zip (cells_of original_nb) (cells_of translated_nb))))"
    unfolding sync_notebook_cells [OF o(2) t(2)] sync_cells_wf [OF wf]
    by (simp add: synced_notebook_def aligned_def t(1))
  then show ?thesis
    by (simp add: o(1) t(1))
qed


subsection \<open>The cells of the notebook written back\<close>

lemma field_JObj [simp]: "field (JObj kv) k = map_of kv k"
  by (simp add: field_def)

lemma cells_of_synced_notebook:
  assumes "wf_notebook translated_nb"
  shows "cells_of (synced_notebook original_nb translated_nb) =
           map (\<lambda>(orig_cell, trans_cell). synced_cell orig_cell trans_cell)
             (zip (cells_of original_nb) (cells_of translated_nb)) @
           drop (aligned original_nb translated_nb) (cells_of translated_nb)"
proof -
  obtain tkv where t: "translated_nb = JObj tkv"
    using wf_notebook_cells [OF assms] by blast
  show ?thesis
    by (simp add: synced_notebook_def t cells_of_def [of "JObj _"] AList.update_conv')
qed

lemma length_cells_of_synced_notebook:
  "wf_notebook translated_nb \<Longrightarrow>
     length (cells_of (synced_notebook original_nb translated_nb)) =
       length (cells_of translated_nb)"
  by (simp add: cells_of_synced_notebook aligned_def)

lemma nth_cells_of_synced_notebook:
  assumes "wf_notebook translated_nb" "i < aligned original_nb translated_nb"
  shows "cells_of (synced_notebook original_nb translated_nb) ! i =
           synced_cell (cells_of original_nb ! i) (cells_of translated_nb ! i)"
  using assms by (simp add: cells_of_synced_notebook aligned_def nth_append)

lemma drop_cells_of_synced_notebook:
  assumes "wf_notebook translated_nb"
  shows "drop (aligned original_nb translated_nb)
           (cells_of (synced_notebook original_nb translated_nb)) =
         drop (aligned original_nb translated_nb) (cells_of translated_nb)"
  using assms by (simp add: cells_of_synced_notebook aligned_def)

lemma zip_conv_nth:
  "zip xs ys = map (\<lambda>i. (xs ! i, ys ! i)) [0..<min (length xs) (length ys)]"
  by (rule nth_equalityI) simp_all

lemma length_filter_zip:
  "length (filter (\<lambda>(x, y). P x y) (zip xs ys)) =
     length (filter (\<lambda>i. P (xs ! i) (ys ! i)) [0..<min (length xs) (length ys)])"
proof -
  have "filter (\<lambda>(x, y). P x y) (zip xs ys) =
          map (\<lambda>i. (xs ! i, ys ! i))
            (filter (\<lambda>i. P (xs ! i) (ys ! i)) [0..<min (length xs) (length ys)])"
    by (subst zip_conv_nth) (simp add: filter_map comp_def)
  then show ?thesis by simp
qed

subsection \<open>The fields of a synchronized cell\<close>

lemma synced_cell_kind:
  "field (synced_cell orig_cell trans_cell) k_cell_type = field trans_cell k_cell_type"
  by (auto simp: synced_cell_def AList.update_conv' field_def
        split: json.splits option.splits list.splits)

lemma is_code_synced_cell [simp]:
  "is_code (synced_cell orig_cell trans_cell) = is_code trans_cell"
  by (simp add: is_code_def synced_cell_kind)

lemma synced_cell_outputs:
  "field (synced_cell orig_cell trans_cell) k_outputs =
     (if copied_pair orig_cell trans_cell then field orig_cell k_outputs
      else field trans_cell k_outputs)"
  by (auto simp: synced_cell_def AList.update_conv' copied_pair_def nonempty_outputs_def
        is_code_def field_def
        split: json.splits option.splits list.splits)

lemma synced_cell_execution_count:
  "field (synced_cell orig_cell trans_cell) k_execution_count =
     (if is_code orig_cell \<and> is_code trans_cell
      then (case field orig_cell k_execution_count of
              Some execution_count \<Rightarrow> Some execution_count
            | None \<Rightarrow> field trans_cell k_execution_count)
      else field trans_cell k_execution_count)"
  by (auto simp: synced_cell_def AList.update_conv' is_code_def field_def
        split: json.splits option.splits list.splits)

lemma synced_cell_other:
  "k \<noteq> k_outputs \<Longrightarrow> k \<noteq> k_execution_count \<Longrightarrow>
     field (synced_cell orig_cell trans_cell) k = field trans_cell k"
  by (auto simp: synced_cell_def AList.update_conv' field_def
        split: json.splits option.splits list.splits)

lemma wf_cell_field:
  "wf_cell c \<longleftrightarrow> (\<exists>kv. c = JObj kv) \<and>
     (case field c k_outputs of None \<Rightarrow> True | Some (JArr outs) \<Rightarrow> True | Some _ \<Rightarrow> False)"
  by (cases c) (simp_all add: wf_cell_def field_def)

lemma synced_cell_JObj:
  "trans_cell = JObj tkv \<Longrightarrow> \<exists>kv. synced_cell orig_cell trans_cell = JObj kv"
  by (auto simp: synced_cell_def split: json.splits)

lemma wf_synced_cell:
  assumes "wf_cell orig_cell" "wf_cell trans_cell"
  shows "wf_cell (synced_cell orig_cell trans_cell)"
proof -
  obtain tkv where "trans_cell = JObj tkv"
    using assms(2) wf_cell_JObj by blast
  then obtain kv where "synced_cell orig_cell trans_cell = JObj kv"
    using synced_cell_JObj by blast
  then show ?thesis
    using assms unfolding wf_cell_field synced_cell_outputs
    by (auto split: option.splits json.splits)
qed

lemma synced_cell_idem:
  "synced_cell orig_cell (synced_cell orig_cell trans_cell) = synced_cell orig_cell trans_cell"
proof (cases "\<exists>okv tkv. orig_cell = JObj okv \<and> trans_cell = JObj tkv \<and>
                is_code orig_cell \<and> is_code trans_cell")
  case False
  then show ?thesis
    by (auto simp: synced_cell_def split: json.splits)
next
  case True
  then obtain okv tkv where o: "orig_cell = JObj okv" and t: "trans_cell = JObj tkv"
    and c: "is_code orig_cell" "is_code trans_cell" by blast
  obtain kv where kv: "synced_cell orig_cell trans_cell = JObj kv"
    using synced_cell_JObj [OF t] by blast
  have fo: "map_of kv k_outputs =
              (if copied_pair orig_cell trans_cell then field orig_cell k_outputs
               else field trans_cell k_outputs)"
    using synced_cell_outputs [of orig_cell trans_cell] unfolding kv by simp
  have fe: "map_of kv k_execution_count =
              (case field orig_cell k_execution_count of
                 Some execution_count \<Rightarrow> Some execution_count
               | None \<Rightarrow> field trans_cell k_execution_count)"
    using synced_cell_execution_count [of orig_cell trans_cell] c unfolding kv by simp
  have outs: "map_of okv k_outputs = Some (JArr (out # outs)) \<Longrightarrow>
                AList.update k_outputs (JArr (out # outs)) kv = kv" for out outs
    using c by (intro AList.update_triv)
               (simp add: fo o copied_pair_def nonempty_outputs_def)
  have ec: "map_of okv k_execution_count = Some e \<Longrightarrow> AList.update k_execution_count e kv = kv" for e
    by (intro AList.update_triv) (simp add: fe o)
  have c': "is_code (JObj kv)"
    using c(2) by (simp flip: kv)
  show ?thesis
    unfolding kv
    using c(1) c' unfolding o
    by (simp add: synced_cell_def outs ec split: option.splits json.splits list.splits)
qed

lemma copied_pair_synced_cell [simp]:
  "copied_pair orig_cell (synced_cell orig_cell trans_cell) = copied_pair orig_cell trans_cell"
  by (simp add: copied_pair_def)



subsection \<open>A second run\<close>

lemma wf_notebook_iff:
  "wf_notebook nb \<longleftrightarrow>
     (\<exists>kv. nb = JObj kv \<and> map_of kv k_cells = Some (JArr (cells_of nb))) \<and>
     list_all wf_cell (cells_of nb)"
  by (cases nb)
     (auto simp: wf_notebook_def cells_of_def field_def split: option.splits json.splits)

lemma wf_synced_notebook:
  assumes "wf_notebook original_nb" "wf_notebook translated_nb"
  shows "wf_notebook (synced_notebook original_nb translated_nb)"
proof -
  obtain tkv where t: "translated_nb = JObj tkv"
    using wf_notebook_cells [OF assms(2)] by blast
  have o: "list_all wf_cell (cells_of original_nb)"
    using wf_notebook_cells [OF assms(1)] by blast
  have t': "list_all wf_cell (cells_of translated_nb)"
    using wf_notebook_cells [OF assms(2)] by blast
  have "list_all wf_cell (cells_of (synced_notebook original_nb translated_nb))"
    unfolding cells_of_synced_notebook [OF assms(2)]
    using o t'
    by (auto simp: list_all_iff intro!: wf_synced_cell
          dest: set_zip_leftD set_zip_rightD in_set_dropD)
  moreover have "\<exists>kv. synced_notebook original_nb translated_nb = JObj kv \<and>
      map_of kv k_cells = Some (JArr (cells_of (synced_notebook original_nb translated_nb)))"
    by (simp add: synced_notebook_def t cells_of_def [of "JObj _"] AList.update_conv')
  ultimately show ?thesis
    unfolding wf_notebook_iff [of "synced_notebook _ _"] by simp
qed

lemma aligned_synced_notebook:
  "wf_notebook translated_nb \<Longrightarrow>
     aligned original_nb (synced_notebook original_nb translated_nb) =
       aligned original_nb translated_nb"
  by (simp add: aligned_def length_cells_of_synced_notebook)

lemma synced_notebook_JObj:
  "nb = JObj kv \<Longrightarrow>
     synced_notebook original_nb nb =
       JObj (AList.update k_cells (JArr (cells_of (synced_notebook original_nb nb))) kv)"
  by (simp add: synced_notebook_def cells_of_def [of "JObj _"] AList.update_conv')

lemma synced_notebook_idem:
  assumes wfo: "wf_notebook original_nb" and "wf_notebook translated_nb"
  shows "synced_notebook original_nb (synced_notebook original_nb translated_nb) =
           synced_notebook original_nb translated_nb"
proof -
  let ?t1 = "synced_notebook original_nb translated_nb"
  let ?f = "\<lambda>(orig_cell, trans_cell). synced_cell orig_cell trans_cell"
  obtain tkv where t: "translated_nb = JObj tkv"
    using wf_notebook_cells [OF assms(2)] by blast
  have wf1: "wf_notebook ?t1"
    using assms by (rule wf_synced_notebook)
  have m: "aligned original_nb ?t1 = aligned original_nb translated_nb"
    using assms(2) by (rule aligned_synced_notebook)
  have "map ?f (zip (cells_of original_nb) (cells_of ?t1)) =
        map ?f (zip (cells_of original_nb) (cells_of translated_nb))"
  proof (rule nth_equalityI)
    show "length (map ?f (zip (cells_of original_nb) (cells_of ?t1))) =
          length (map ?f (zip (cells_of original_nb) (cells_of translated_nb)))"
      using assms by (simp add: length_cells_of_synced_notebook)
  next
    fix i assume "i < length (map ?f (zip (cells_of original_nb) (cells_of ?t1)))"
    then have i: "i < aligned original_nb translated_nb"
      using assms by (simp add: length_cells_of_synced_notebook aligned_def)
    then have "i < length (cells_of original_nb)" "i < length (cells_of translated_nb)"
      "i < length (cells_of ?t1)"
      using assms by (simp_all add: aligned_def length_cells_of_synced_notebook)
    then show "map ?f (zip (cells_of original_nb) (cells_of ?t1)) ! i =
               map ?f (zip (cells_of original_nb) (cells_of translated_nb)) ! i"
      by (simp add: nth_cells_of_synced_notebook [OF assms(2) i] synced_cell_idem)
  qed
  note eq = this
  have "cells_of (synced_notebook original_nb ?t1) =
          map ?f (zip (cells_of original_nb) (cells_of ?t1)) @
          drop (aligned original_nb ?t1) (cells_of ?t1)"
    by (rule cells_of_synced_notebook [OF wf1])
  also have "\<dots> = map ?f (zip (cells_of original_nb) (cells_of translated_nb)) @
          drop (aligned original_nb translated_nb) (cells_of translated_nb)"
    by (simp only: eq m drop_cells_of_synced_notebook [OF assms(2)])
  also have "\<dots> = cells_of ?t1"
    by (rule cells_of_synced_notebook [OF assms(2), symmetric])
  finally have cs: "cells_of (synced_notebook original_nb ?t1) = cells_of ?t1" .
  have t1: "?t1 = JObj (AList.update k_cells (JArr (cells_of ?t1)) tkv)"
    using t by (rule synced_notebook_JObj)
  have "synced_notebook original_nb ?t1 =
          JObj (AList.update k_cells (JArr (cells_of (synced_notebook original_nb ?t1)))
                  (AList.update k_cells (JArr (cells_of ?t1)) tkv))"
    using t1 by (rule synced_notebook_JObj)
  also have "\<dots> = JObj (AList.update k_cells (JArr (cells_of ?t1)) tkv)"
    by (simp only: cs AList.update_last)
  also have "\<dots> = ?t1"
    using t1 by simp
  finally show ?thesis .
qed



lemma count_synced_notebook:
  assumes "wf_notebook translated_nb"
  shows "length (filter (\<lambda>(orig_cell, trans_cell). copied_pair orig_cell trans_cell)
            (zip (cells_of original_nb) (cells_of (synced_notebook original_nb translated_nb)))) =
         length (filter (\<lambda>(orig_cell, trans_cell). copied_pair orig_cell trans_cell)
            (zip (cells_of original_nb) (cells_of translated_nb)))"
proof -
  let ?m = "min (length (cells_of original_nb)) (length (cells_of translated_nb))"
  have "filter (\<lambda>i. copied_pair (cells_of original_nb ! i)
                  (cells_of (synced_notebook original_nb translated_nb) ! i)) [0..<?m] =
        filter (\<lambda>i. copied_pair (cells_of original_nb ! i) (cells_of translated_nb ! i)) [0..<?m]"
    by (rule filter_cong)
       (simp_all add: nth_cells_of_synced_notebook [OF assms] aligned_def)
  then show ?thesis
    by (simp add: length_filter_zip length_cells_of_synced_notebook [OF assms])
qed

subsection \<open>The example pair\<close>

lemmas example_defs =
  example_original_def example_translated_def notebook_def code_cell_def
  markdown_cell_def

lemma field_names_distinct [simp]:
  "k_cell_type \<noteq> k_source" "k_source \<noteq> k_cell_type"
  "k_source \<noteq> k_outputs" "k_outputs \<noteq> k_source"
  "k_source \<noteq> k_execution_count" "k_execution_count \<noteq> k_source"
  "k_cells \<noteq> k_metadata" "k_metadata \<noteq> k_cells"
  by (simp_all add: k_cell_type_def k_source_def k_outputs_def k_execution_count_def
        k_cells_def k_metadata_def)

lemma wf_example: "wf_notebook example_original" "wf_notebook example_translated"
  by (simp_all add: example_defs wf_notebook_def wf_cell_def)

lemma cells_of_notebook [simp]: "cells_of (notebook cs) = cs"
  by (simp add: notebook_def cells_of_def)

section \<open>What the validator computes\<close>

subsection \<open>The entry of the metadata check\<close>

lemma validate_metadata_returns_None:
  "validate_metadata self = Inr (r, new_issues) \<Longrightarrow> r = JNull"
  by (auto simp: validate_metadata_def bind_eq_Inr split: if_splits)

lemma run_validations_append:
  "run_validations (xs @ ys) self results =
     (case run_validations xs self results of
        (results', self') \<Rightarrow> run_validations ys self' results')"
  by (induction xs self results rule: run_validations.induct)
     (simp_all split: sum.splits prod.splits)

lemma validations_last:
  "validations =
     [(Cell_count, validate_cell_count), (Cell_types, validate_cell_types),
      (Code_cells, validate_code_cells), (Markdown_translation, validate_markdown_translated),
      (Outputs_present, validate_outputs_present)] @ [(Metadata, validate_metadata)]"
  by (simp add: validations_def)

lemma run_validations_last:
  "map_of (fst (run_validations (xs @ [(name, validation_func)]) self results)) name =
     Some (case validation_func (snd (run_validations xs self results)) of
             Inr (r, new_issues) \<Rightarrow> r
           | Inl e \<Rightarrow> JBool False)"
  unfolding run_validations_append
  by (simp add: AList.update_conv' split: prod.splits sum.splits)

lemma metadata_result:
  "map_of (fst (run_all_validations self)) Metadata = Some JNull \<or>
   map_of (fst (run_all_validations self)) Metadata = Some (JBool False)"
  unfolding run_all_validations_def validations_last run_validations_last
  by (auto split: sum.splits dest: validate_metadata_returns_None)

lemma not_all_passed: "\<not> all_passed (fst (run_all_validations self))"
proof -
  obtain v where v: "map_of (fst (run_all_validations self)) Metadata = Some v"
    and f: "\<not> py_truthy v"
    using metadata_result [of self] by auto
  have "(Metadata, v) \<in> set (fst (run_all_validations self))"
    using v by (rule map_of_SomeD)
  then have "v \<in> set (map snd (fst (run_all_validations self)))"
    by force
  then show ?thesis
    using f by (auto simp: all_passed_def list_all_iff)
qed

subsection \<open>Every check only appends to the issues\<close>

lemma zip_cells_issues [simp]: "zip_cells (self\<lparr>issues := new_issues\<rparr>) = zip_cells self"
  by (simp add: zip_cells_def)

lemma validator_reset: "self\<lparr>issues := []\<rparr> = NotebookValidator (original self) (translated self)"
  by (cases self) (simp add: NotebookValidator_def)

lemma validate_cell_count_local:
  "validate_cell_count self =
     (case validate_cell_count (self\<lparr>issues := []\<rparr>) of
        Inl e \<Rightarrow> Inl e
      | Inr (r, new_issues) \<Rightarrow> Inr (r, issues self @ new_issues))"
  by (simp add: validate_cell_count_def bind_def split: sum.splits)

lemma validate_cell_types_local:
  "validate_cell_types self =
     (case validate_cell_types (self\<lparr>issues := []\<rparr>) of
        Inl e \<Rightarrow> Inl e
      | Inr (r, new_issues) \<Rightarrow> Inr (r, issues self @ new_issues))"
  by (simp add: validate_cell_types_def bind_def split: sum.splits)

lemma validate_code_cells_local:
  "validate_code_cells self =
     (case validate_code_cells (self\<lparr>issues := []\<rparr>) of
        Inl e \<Rightarrow> Inl e
      | Inr (r, new_issues) \<Rightarrow> Inr (r, issues self @ new_issues))"
  by (simp add: validate_code_cells_def bind_def split: sum.splits)

lemma validate_markdown_translated_local:
  "validate_markdown_translated self =
     (case validate_markdown_translated (self\<lparr>issues := []\<rparr>) of
        Inl e \<Rightarrow> Inl e
      | Inr (r, new_issues) \<Rightarrow> Inr (r, issues self @ new_issues))"
  by (simp add: validate_markdown_translated_def bind_def split: sum.splits prod.splits)

lemma validate_outputs_present_local:
  "validate_outputs_present self =
     (case validate_outputs_present (self\<lparr>issues := []\<rparr>) of
        Inl e \<Rightarrow> Inl e
      | Inr (r, new_issues) \<Rightarrow> Inr (r, issues self @ new_issues))"
  by (simp add: validate_outputs_present_def bind_def split: sum.splits)

lemma validate_metadata_local:
  "validate_metadata self =
     (case validate_metadata (self\<lparr>issues := []\<rparr>) of
        Inl e \<Rightarrow> Inl e
      | Inr (r, new_issues) \<Rightarrow> Inr (r, issues self @ new_issues))"
  by (simp add: validate_metadata_def bind_def split: sum.splits)

lemma run_validations_local:
  assumes "\<And>validation_func self. validation_func \<in> snd ` set vs \<Longrightarrow>
             validation_func self =
               (case validation_func (self\<lparr>issues := []\<rparr>) of
                  Inl e \<Rightarrow> Inl e
                | Inr (r, new_issues) \<Rightarrow> Inr (r, issues self @ new_issues))"
  shows "run_validations vs self results =
           (fold (\<lambda>(name, validation_func).
                    AList.update name
                      (fst (isolated name validation_func (original self) (translated self))))
              vs results,
            self\<lparr>issues := issues self @
              concat (map (\<lambda>(name, validation_func).
                             snd (isolated name validation_func (original self) (translated self)))
                        vs)\<rparr>)"
  using assms
proof (induction vs arbitrary: self results)
  case Nil
  then show ?case by simp
next
  case (Cons a vs)
  obtain name validation_func where a: "a = (name, validation_func)" by (cases a)
  have loc: "validation_func self =
               (case validation_func (self\<lparr>issues := []\<rparr>) of
                  Inl e \<Rightarrow> Inl e
                | Inr (r, new_issues) \<Rightarrow> Inr (r, issues self @ new_issues))"
    using Cons.prems [of validation_func self] by (simp add: a)
  have ih: "run_validations vs self' results' =
           (fold (\<lambda>(name, validation_func).
                    AList.update name
                      (fst (isolated name validation_func (original self') (translated self'))))
              vs results',
            self'\<lparr>issues := issues self' @
              concat (map (\<lambda>(name, validation_func).
                             snd (isolated name validation_func (original self') (translated self')))
                        vs)\<rparr>)" for self' results'
    by (rule Cons.IH) (rule Cons.prems, simp)
  show ?case
  proof (cases "validation_func (self\<lparr>issues := []\<rparr>)")
    case (Inl e)
    then have "validation_func self = Inl e"
      using loc by simp
    then show ?thesis
      using Inl by (simp add: a ih isolated_def flip: validator_reset)
  next
    case (Inr p)
    obtain r new_issues where p: "p = (r, new_issues)" by (cases p)
    have "validation_func self = Inr (r, issues self @ new_issues)"
      using loc Inr p by simp
    then show ?thesis
      using Inr p by (simp add: a ih isolated_def flip: validator_reset)
  qed
qed

lemma validations_local:
  assumes "validation_func \<in> snd ` set validations"
  shows "validation_func self =
           (case validation_func (self\<lparr>issues := []\<rparr>) of
              Inl e \<Rightarrow> Inl e
            | Inr (r, new_issues) \<Rightarrow> Inr (r, issues self @ new_issues))"
  using assms validate_cell_count_local [of self] validate_cell_types_local [of self]
    validate_code_cells_local [of self] validate_markdown_translated_local [of self]
    validate_outputs_present_local [of self] validate_metadata_local [of self]
  unfolding validations_def by auto

lemma run_validations_isolated:
  "run_validations validations (NotebookValidator original_nb translated_nb) [] =
     (map (\<lambda>(name, validation_func).
             (name, fst (isolated name validation_func original_nb translated_nb)))
        validations,
      \<lparr>original = original_nb, translated = translated_nb,
       issues = concat (map (\<lambda>(name, validation_func).
                               snd (isolated name validation_func original_nb translated_nb))
                          validations)\<rparr>)"
proof -
  let ?self = "NotebookValidator original_nb translated_nb"
  have "run_validations validations ?self [] =
          (fold (\<lambda>(name, validation_func).
                   AList.update name
                     (fst (isolated name validation_func (original ?self) (translated ?self))))
             validations [],
           ?self\<lparr>issues := issues ?self @
             concat (map (\<lambda>(name, validation_func).
                            snd (isolated name validation_func (original ?self) (translated ?self)))
                       validations)\<rparr>)"
    by (rule run_validations_local) (rule validations_local)
  then show ?thesis
    by (simp add: NotebookValidator_def validations_def)
qed

subsection \<open>The checks on the example pairs\<close>

lemmas python_defs =
  py_getitem_def py_get_def py_get_default_def py_len_def py_iter_def py_join_def
  py_strip_def is_space_def cell_source_def

lemmas name_defs =
  k_cells_def k_cell_type_def k_source_def k_outputs_def k_execution_count_def
  k_metadata_def k_kernelspec_def k_name_def s_code_def s_markdown_def

lemmas check_defs =
  validate_cell_count_def validate_cell_types_def validate_code_cells_def
  validate_markdown_translated_def validate_outputs_present_def validate_metadata_def
  zip_cells_def kernel_name_def

lemma hello_cell_count:
  "validate_cell_count (NotebookValidator hello_original hello_translated) = Inr (JBool True, [])"
  by (simp add: NotebookValidator_def hello_original_def hello_translated_def
        kernel_notebook_def markdown_cell_def check_defs python_defs name_defs)

lemma hello_cell_types:
  "validate_cell_types (NotebookValidator hello_original hello_translated) = Inr (JBool True, [])"
  by (simp add: NotebookValidator_def hello_original_def hello_translated_def
        kernel_notebook_def markdown_cell_def check_defs python_defs name_defs)

lemma hello_code_cells:
  "validate_code_cells (NotebookValidator hello_original hello_translated) = Inr (JBool True, [])"
  by (simp add: NotebookValidator_def hello_original_def hello_translated_def
        kernel_notebook_def markdown_cell_def check_defs python_defs name_defs)

lemma hello_markdown:
  "validate_markdown_translated (NotebookValidator hello_original hello_translated) =
     Inr (JBool True, [])"
  by (simp add: NotebookValidator_def hello_original_def hello_translated_def
        kernel_notebook_def markdown_cell_def check_defs python_defs name_defs str_def)

lemma hello_outputs:
  "validate_outputs_present (NotebookValidator hello_original hello_translated) =
     Inr (JBool True, [])"
  by (simp add: NotebookValidator_def hello_original_def hello_translated_def
        kernel_notebook_def markdown_cell_def check_defs python_defs name_defs)

lemma hello_metadata:
  "validate_metadata (NotebookValidator hello_original hello_translated) = Inr (JNull, [])"
  by (simp add: NotebookValidator_def hello_original_def hello_translated_def
        kernel_notebook_def markdown_cell_def check_defs python_defs name_defs)

lemmas hello_checks =
  hello_cell_count hello_cell_types hello_code_cells hello_markdown hello_outputs hello_metadata

lemma null_metadata_checks:
  "validate_cell_count (NotebookValidator null_metadata_original hello_translated) =
     Inr (JBool True, [])"
  "validate_cell_types (NotebookValidator null_metadata_original hello_translated) =
     Inr (JBool True, [])"
  "validate_code_cells (NotebookValidator null_metadata_original hello_translated) =
     Inr (JBool True, [])"
  "validate_markdown_translated (NotebookValidator null_metadata_original hello_translated) =
     Inr (JBool True, [])"
  "validate_outputs_present (NotebookValidator null_metadata_original hello_translated) =
     Inr (JBool True, [])"
  "validate_metadata (NotebookValidator null_metadata_original hello_translated) =
     Inl AttributeError"
  by (simp_all add: NotebookValidator_def null_metadata_original_def hello_translated_def
        kernel_notebook_def markdown_cell_def check_defs python_defs name_defs str_def)

subsection \<open>The zipped cells\<close>

lemma has_cell_list_getitem:
  "has_cell_list nb \<Longrightarrow> py_getitem nb k_cells = Inr (JArr (cells_of nb))"
  by (cases nb)
     (auto simp: has_cell_list_def cells_of_def field_def py_getitem_def
        split: option.splits json.splits)

lemma wf_notebook_has_cell_list: "wf_notebook nb \<Longrightarrow> has_cell_list nb"
  by (auto simp: wf_notebook_def has_cell_list_def split: option.splits json.splits)

lemma zip_cells_lists:
  assumes "has_cell_list original_nb" "has_cell_list translated_nb"
  shows "zip_cells \<lparr>original = original_nb, translated = translated_nb, issues = iss\<rparr> =
           Inr (zip (cells_of original_nb) (cells_of translated_nb))"
  by (simp add: zip_cells_def has_cell_list_getitem [OF assms(1)]
        has_cell_list_getitem [OF assms(2)] py_iter_def)

lemma zip_take_min:
  "zip (take (min (length xs) (length ys)) xs) (take (min (length xs) (length ys)) ys) = zip xs ys"
  by (simp flip: take_zip)

lemma zip_prefix_eq:
  assumes "min (length xs') (length ys') = m" "min (length xs) (length ys) = m"
    and "take m xs' = take m xs" "take m ys' = take m ys"
  shows "zip xs' ys' = zip xs ys"
proof -
  have "zip xs' ys' = zip (take m xs') (take m ys')"
    using zip_take_min [of xs' ys'] assms(1) by simp
  also have "\<dots> = zip (take m xs) (take m ys)"
    using assms(3,4) by simp
  also have "\<dots> = zip xs ys"
    using zip_take_min [of xs ys] assms(2) by simp
  finally show ?thesis .
qed

lemma zip_cells_prefix:
  assumes "has_cell_list original_nb" "has_cell_list translated_nb"
    and "has_cell_list original'" "has_cell_list translated'"
    and "aligned original' translated' = aligned original_nb translated_nb"
    and "take (aligned original_nb translated_nb) (cells_of original') =
         take (aligned original_nb translated_nb) (cells_of original_nb)"
    and "take (aligned original_nb translated_nb) (cells_of translated') =
         take (aligned original_nb translated_nb) (cells_of translated_nb)"
  shows "zip_cells \<lparr>original = original', translated = translated', issues = iss\<rparr> =
         zip_cells \<lparr>original = original_nb, translated = translated_nb, issues = iss\<rparr>"
proof -
  have "zip (cells_of original') (cells_of translated') =
        zip (cells_of original_nb) (cells_of translated_nb)"
    using assms(5) refl assms(6,7) unfolding aligned_def by (rule zip_prefix_eq)
  then show ?thesis
    unfolding zip_cells_lists [OF assms(1,2)] zip_cells_lists [OF assms(3,4)] by simp
qed

subsection \<open>The loops on readable notebooks\<close>

lemma readable_cell_kind:
  assumes "readable_cell c"
  shows "\<exists>v. py_get c k_cell_type = Inr v \<and>
             (py_eq v (JStr s_code) \<longleftrightarrow> is_code c) \<and>
             (py_eq v (JStr s_markdown) \<longleftrightarrow> is_markdown c)"
proof -
  obtain kv where "c = JObj kv"
    using assms wf_cell_JObj by (auto simp: readable_cell_def)
  then show ?thesis
    by (auto simp: py_get_def py_get_default_def is_code_def is_markdown_def
          split: option.splits)
qed

lemma readable_cell_source: "readable_cell c \<Longrightarrow> cell_source c = Inr (source_text c)"
  by (auto simp: readable_cell_def source_text_def split: sum.splits)

lemma readable_cell_outputs:
  assumes "readable_cell c"
  shows "py_get_default c k_outputs (JArr []) = Inr (JArr (outputs_of c))"
proof -
  obtain kv where "c = JObj kv"
    using assms wf_cell_JObj by (auto simp: readable_cell_def)
  then show ?thesis
    using assms
    by (auto simp: readable_cell_def wf_cell_def py_get_default_def outputs_of_def
          split: option.splits json.splits)
qed

lemma code_cells_loop_readable:
  "list_all (\<lambda>(orig_cell, trans_cell). readable_cell orig_cell \<and> readable_cell trans_cell) pairs
   \<Longrightarrow> code_cells_loop i pairs mismatches =
         Inr (mismatches @
              concat (map (\<lambda>(j, orig_cell, trans_cell). code_lines j orig_cell trans_cell)
                        (List.enumerate i pairs)))"
proof (induction pairs arbitrary: i mismatches)
  case Nil
  then show ?case by simp
next
  case (Cons p pairs)
  obtain orig_cell trans_cell where p: "p = (orig_cell, trans_cell)" by (cases p)
  have r: "readable_cell orig_cell" "readable_cell trans_cell"
    using Cons.prems by (simp_all add: p)
  obtain v where v: "py_get orig_cell k_cell_type = Inr v"
      "py_eq v (JStr s_code) \<longleftrightarrow> is_code orig_cell"
    using readable_cell_kind [OF r(1)] by blast
  have ih: "code_cells_loop (Suc i) pairs ms =
         Inr (ms @
              concat (map (\<lambda>(j, orig_cell, trans_cell). code_lines j orig_cell trans_cell)
                        (List.enumerate (Suc i) pairs)))" for ms
    using Cons.prems by (intro Cons.IH) simp
  show ?case
    unfolding p using v(2)
    by (auto simp: v(1) readable_cell_source [OF r(1)] readable_cell_source [OF r(2)] ih
          code_lines_def)
qed

lemma outputs_loop_readable:
  "list_all (\<lambda>(orig_cell, trans_cell). readable_cell orig_cell \<and> readable_cell trans_cell) pairs
   \<Longrightarrow> outputs_loop i pairs missing_outputs =
         Inr (missing_outputs @
              concat (map (\<lambda>(j, orig_cell, trans_cell). missing_line j orig_cell trans_cell)
                        (List.enumerate i pairs)))"
proof (induction pairs arbitrary: i missing_outputs)
  case Nil
  then show ?case by simp
next
  case (Cons p pairs)
  obtain orig_cell trans_cell where p: "p = (orig_cell, trans_cell)" by (cases p)
  have r: "readable_cell orig_cell" "readable_cell trans_cell"
    using Cons.prems by (simp_all add: p)
  obtain v where v: "py_get orig_cell k_cell_type = Inr v"
      "py_eq v (JStr s_code) \<longleftrightarrow> is_code orig_cell"
    using readable_cell_kind [OF r(1)] by blast
  have ih: "outputs_loop (Suc i) pairs ms =
         Inr (ms @
              concat (map (\<lambda>(j, orig_cell, trans_cell). missing_line j orig_cell trans_cell)
                        (List.enumerate (Suc i) pairs)))" for ms
    using Cons.prems by (intro Cons.IH) simp
  show ?case
    unfolding p using v(2)
    by (auto simp: v(1) readable_cell_outputs [OF r(1)] readable_cell_outputs [OF r(2)] ih
          missing_line_def py_len_def)
qed

lemma markdown_loop_readable:
  "list_all (\<lambda>(orig_cell, trans_cell). readable_cell orig_cell \<and> readable_cell trans_cell) pairs
   \<Longrightarrow> markdown_loop pairs (identical_count, total_markdown) =
         Inr (identical_count +
                length (filter (\<lambda>(orig_cell, trans_cell).
                           is_markdown orig_cell \<and> py_strip (source_text orig_cell) \<noteq> [] \<and>
                           source_text orig_cell = source_text trans_cell) pairs),
              total_markdown +
                length (filter (\<lambda>(orig_cell, trans_cell). is_markdown orig_cell) pairs))"
proof (induction pairs arbitrary: identical_count total_markdown)
  case Nil
  then show ?case by simp
next
  case (Cons p pairs)
  obtain orig_cell trans_cell where p: "p = (orig_cell, trans_cell)" by (cases p)
  have r: "readable_cell orig_cell" "readable_cell trans_cell"
    using Cons.prems by (simp_all add: p)
  obtain v where v: "py_get orig_cell k_cell_type = Inr v"
      "py_eq v (JStr s_markdown) \<longleftrightarrow> is_markdown orig_cell"
    using readable_cell_kind [OF r(1)] by blast
  have ih: "markdown_loop pairs (ic, tm) =
         Inr (ic +
                length (filter (\<lambda>(orig_cell, trans_cell).
                           is_markdown orig_cell \<and> py_strip (source_text orig_cell) \<noteq> [] \<and>
                           source_text orig_cell = source_text trans_cell) pairs),
              tm +
                length (filter (\<lambda>(orig_cell, trans_cell). is_markdown orig_cell) pairs))"
    for ic tm
    using Cons.prems by (intro Cons.IH) simp
  show ?case
    unfolding p using v(2)
    by (auto simp: v(1) readable_cell_source [OF r(1)] readable_cell_source [OF r(2)] ih)
qed

subsection \<open>The code check and the outputs check\<close>

lemma readable_notebook_cells:
  "readable_notebook nb \<Longrightarrow> has_cell_list nb \<and> list_all readable_cell (cells_of nb)"
  by (auto simp: readable_notebook_def has_cell_list_def cells_of_def
        split: option.splits json.splits)

lemma zip_cells_readable:
  assumes "readable_notebook original_nb" "readable_notebook translated_nb"
  shows "zip_cells (NotebookValidator original_nb translated_nb) =
           Inr (zip (cells_of original_nb) (cells_of translated_nb))"
  using readable_notebook_cells [OF assms(1)] readable_notebook_cells [OF assms(2)]
  by (simp add: NotebookValidator_def zip_cells_lists)

lemma readable_pairs:
  assumes "readable_notebook original_nb" "readable_notebook translated_nb"
  shows "list_all (\<lambda>(orig_cell, trans_cell). readable_cell orig_cell \<and> readable_cell trans_cell)
           (zip (cells_of original_nb) (cells_of translated_nb))"
  using readable_notebook_cells [OF assms(1)] readable_notebook_cells [OF assms(2)]
  by (simp add: list_all_zip)

lemma enumerate_zip_nth:
  "List.enumerate 0 (zip xs ys) =
     map (\<lambda>i. (i, xs ! i, ys ! i)) [0..<min (length xs) (length ys)]"
  by (rule nth_equalityI) (simp_all add: nth_enumerate_eq)

lemma concat_map_if:
  "concat (map (\<lambda>x. if P x then [g x] else []) xs) = map g (filter P xs)"
  by (induction xs) simp_all

lemma line_index_code_lines:
  "concat (map line_index (code_lines i orig_cell trans_cell)) =
     (if is_code orig_cell \<and> source_text orig_cell \<noteq> source_text trans_cell then [i] else [])"
  by (auto simp: code_lines_def)

lemma code_lines_empty:
  "code_lines i orig_cell trans_cell = [] \<longleftrightarrow>
     \<not> (is_code orig_cell \<and> source_text orig_cell \<noteq> source_text trans_cell)"
  by (simp add: code_lines_def)

lemma code_flagged_indices:
  "concat (map line_index
      (concat (map (\<lambda>(j, orig_cell, trans_cell). code_lines j orig_cell trans_cell)
                 (List.enumerate 0 (zip xs ys))))) =
   filter (\<lambda>i. is_code (xs ! i) \<and> source_text (xs ! i) \<noteq> source_text (ys ! i))
     [0..<min (length xs) (length ys)]"
proof -
  have "concat (map line_index (concat (map f zs))) =
        concat (map (\<lambda>z. concat (map line_index (f z))) zs)" for f and zs :: "nat list"
    by (induction zs) simp_all
  then show ?thesis
    unfolding enumerate_zip_nth
    by (simp add: comp_def line_index_code_lines concat_map_if)
qed

lemma code_lines_none:
  "concat (map (\<lambda>(j, orig_cell, trans_cell). code_lines j orig_cell trans_cell)
             (List.enumerate 0 (zip xs ys))) = [] \<longleftrightarrow>
   filter (\<lambda>i. is_code (xs ! i) \<and> source_text (xs ! i) \<noteq> source_text (ys ! i))
     [0..<min (length xs) (length ys)] = []"
  unfolding enumerate_zip_nth
  by (simp add: code_lines_empty filter_empty_conv)

lemma missing_flagged_indices:
  "map fst (concat (map (\<lambda>(j, orig_cell, trans_cell). missing_line j orig_cell trans_cell)
                      (List.enumerate 0 (zip xs ys)))) =
   filter (\<lambda>i. is_code (xs ! i) \<and> outputs_of (xs ! i) \<noteq> [] \<and> outputs_of (ys ! i) = [])
     [0..<min (length xs) (length ys)]"
proof -
  have "map fst (concat (map f zs)) = concat (map (\<lambda>z. map fst (f z)) zs)"
    for f :: "nat \<Rightarrow> (nat \<times> nat) list" and zs
    by (induction zs) simp_all
  moreover have "map fst (missing_line i a b) =
      (if is_code a \<and> outputs_of a \<noteq> [] \<and> outputs_of b = [] then [i] else [])" for i a b
    by (simp add: missing_line_def)
  ultimately show ?thesis
    unfolding enumerate_zip_nth
    by (simp add: comp_def concat_map_if)
qed

lemma missing_line_empty:
  "missing_line i orig_cell trans_cell = [] \<longleftrightarrow>
     \<not> (is_code orig_cell \<and> outputs_of orig_cell \<noteq> [] \<and> outputs_of trans_cell = [])"
  by (simp add: missing_line_def)

lemma missing_none:
  "concat (map (\<lambda>(j, orig_cell, trans_cell). missing_line j orig_cell trans_cell)
             (List.enumerate 0 (zip xs ys))) = [] \<longleftrightarrow>
   filter (\<lambda>i. is_code (xs ! i) \<and> outputs_of (xs ! i) \<noteq> [] \<and> outputs_of (ys ! i) = [])
     [0..<min (length xs) (length ys)] = []"
  unfolding enumerate_zip_nth
  by (simp add: missing_line_empty filter_empty_conv)

lemma validate_code_cells_readable:
  assumes "readable_notebook original_nb" "readable_notebook translated_nb"
  shows "validate_code_cells (NotebookValidator original_nb translated_nb) =
           (if concat (map (\<lambda>(j, orig_cell, trans_cell). code_lines j orig_cell trans_cell)
                        (List.enumerate 0 (zip (cells_of original_nb) (cells_of translated_nb))))
               \<noteq> []
            then Inr (JBool False,
                   [Code_cell_mismatches
                      (concat (map (\<lambda>(j, orig_cell, trans_cell). code_lines j orig_cell trans_cell)
                          (List.enumerate 0
                             (zip (cells_of original_nb) (cells_of translated_nb)))))])
            else Inr (JBool True, []))"
  unfolding validate_code_cells_def zip_cells_readable [OF assms]
  by (simp add: code_cells_loop_readable [OF readable_pairs [OF assms]] NotebookValidator_def)

lemma validate_outputs_present_readable:
  assumes "readable_notebook original_nb" "readable_notebook translated_nb"
  shows "validate_outputs_present (NotebookValidator original_nb translated_nb) =
           (if concat (map (\<lambda>(j, orig_cell, trans_cell). missing_line j orig_cell trans_cell)
                        (List.enumerate 0 (zip (cells_of original_nb) (cells_of translated_nb))))
               \<noteq> []
            then Inr (JBool False,
                   [Missing_outputs
                      (concat (map (\<lambda>(j, orig_cell, trans_cell). missing_line j orig_cell trans_cell)
                          (List.enumerate 0
                             (zip (cells_of original_nb) (cells_of translated_nb)))))])
            else Inr (JBool True, []))"
  unfolding validate_outputs_present_def zip_cells_readable [OF assms]
  by (simp add: outputs_loop_readable [OF readable_pairs [OF assms]] NotebookValidator_def)

lemmas notebook_defs = notebook_def code_cell_def markdown_cell_def

lemma kind_mismatch_readable:
  "readable_notebook kind_mismatch_original" "readable_notebook kind_mismatch_translated"
  by (simp_all add: kind_mismatch_original_def kind_mismatch_translated_def notebook_defs
        readable_notebook_def readable_cell_def wf_cell_def python_defs bind_def
        k_source_def k_outputs_def k_cell_type_def k_execution_count_def k_cells_def k_metadata_def)

lemma kind_mismatch_cells:
  "cells_of kind_mismatch_original = [code_cell [''x = 1''] [JStr (str ''out'')] (JInt 1)]"
  "cells_of kind_mismatch_translated = [markdown_cell [''x = 2'']]"
  by (simp_all add: kind_mismatch_original_def kind_mismatch_translated_def)

lemma kind_mismatch_facts:
  "is_code (code_cell [''x = 1''] [JStr (str ''out'')] (JInt 1))"
  "\<not> is_code (markdown_cell [''x = 2''])"
  "source_text (code_cell [''x = 1''] [JStr (str ''out'')] (JInt 1)) = str ''x = 1''"
  "source_text (markdown_cell [''x = 2'']) = str ''x = 2''"
  "outputs_of (code_cell [''x = 1''] [JStr (str ''out'')] (JInt 1)) = [JStr (str ''out'')]"
  "outputs_of (markdown_cell [''x = 2'']) = []"
  by (simp_all add: is_code_def source_text_def outputs_of_def notebook_defs python_defs
        name_defs str_def)

subsection \<open>The markdown check\<close>

lemma filter_conj_length:
  "length (filter (\<lambda>x. P x \<and> Q x) xs) = length (filter P xs) \<longleftrightarrow>
     list_all Q (filter P xs)"
proof (induction xs)
  case Nil
  then show ?case by simp
next
  case (Cons x xs)
  have le: "length (filter (\<lambda>x. P x \<and> Q x) xs) \<le> length (filter P xs)"
    by (induction xs) auto
  show ?case
    using Cons le by auto
qed

lemma validate_markdown_translated_readable:
  assumes "readable_notebook original_nb" "readable_notebook translated_nb"
  shows "validate_markdown_translated (NotebookValidator original_nb translated_nb) =
           (if filter (\<lambda>(orig_cell, trans_cell). is_markdown orig_cell)
                 (zip (cells_of original_nb) (cells_of translated_nb)) \<noteq> [] \<and>
               list_all (\<lambda>(orig_cell, trans_cell).
                           py_strip (source_text orig_cell) \<noteq> [] \<and>
                           source_text orig_cell = source_text trans_cell)
                 (filter (\<lambda>(orig_cell, trans_cell). is_markdown orig_cell)
                    (zip (cells_of original_nb) (cells_of translated_nb)))
            then Inr (JBool False,
                   [All_markdown_identical
                      (length (filter (\<lambda>(orig_cell, trans_cell). is_markdown orig_cell)
                                 (zip (cells_of original_nb) (cells_of translated_nb))))])
            else Inr (JBool True, []))"
proof -
  let ?pairs = "zip (cells_of original_nb) (cells_of translated_nb)"
  let ?M = "\<lambda>p. case p of (orig_cell, trans_cell) \<Rightarrow> is_markdown orig_cell"
  let ?Q = "\<lambda>p. case p of (orig_cell, trans_cell) \<Rightarrow>
              py_strip (source_text orig_cell) \<noteq> [] \<and>
              source_text orig_cell = source_text trans_cell"
  have split: "(\<lambda>(orig_cell, trans_cell).
                   is_markdown orig_cell \<and> py_strip (source_text orig_cell) \<noteq> [] \<and>
                   source_text orig_cell = source_text trans_cell) =
               (\<lambda>p. ?M p \<and> ?Q p)"
    by (simp add: fun_eq_iff)
  have loop: "markdown_loop ?pairs (0, 0) =
                Inr (length (filter (\<lambda>p. ?M p \<and> ?Q p) ?pairs), length (filter ?M ?pairs))"
    using markdown_loop_readable [OF readable_pairs [OF assms], of 0 0]
    unfolding split by simp
  show ?thesis
    unfolding validate_markdown_translated_def zip_cells_readable [OF assms] bind_Inr loop
    using filter_conj_length [of ?M ?Q ?pairs]
    by (simp add: NotebookValidator_def)
qed

lemma untranslated_cells:
  "cells_of untranslated_original = [markdown_cell [''Same text'']]"
  "cells_of untranslated_as_code = [code_cell [''Same text''] [] JNull]"
  "cells_of blank_cell_notebook = [markdown_cell [''Same text''], markdown_cell []]"
  by (simp_all add: untranslated_original_def untranslated_as_code_def
        blank_cell_notebook_def)

lemma untranslated_facts:
  "is_markdown (markdown_cell [''Same text''])"
  "\<not> is_markdown (code_cell [''Same text''] [] JNull)"
  "is_markdown (markdown_cell [])"
  "source_text (markdown_cell [''Same text'']) = str ''Same text''"
  "source_text (code_cell [''Same text''] [] JNull) = str ''Same text''"
  "source_text (markdown_cell []) = []"
  by (simp_all add: is_markdown_def source_text_def notebook_defs python_defs name_defs str_def)

lemma untranslated_readable:
  "readable_notebook untranslated_original" "readable_notebook untranslated_as_code"
  by (simp_all add: untranslated_original_def untranslated_as_code_def notebook_defs
        readable_notebook_def readable_cell_def wf_cell_def python_defs bind_def name_defs)

lemma not_blank_same_text: "py_strip (str ''Same text'') \<noteq> []"
  by (simp add: py_strip_def is_space_def str_def)

text \<open>
  A blank markdown cell in the original: \<^verbatim>\<open>total_markdown\<close> is incremented before the
  \<^verbatim>\<open># Skip empty cells\<close> test, so such a cell is counted in the total and never in
  \<^verbatim>\<open>identical_count\<close>, and the warning cannot be given. Here a notebook is compared with
  itself.
\<close>

lemma blank_cell_disables_warning:
  "validate_markdown_translated (NotebookValidator blank_cell_notebook blank_cell_notebook) =
     Inr (JBool True, []) \<and>
   claimed_markdown_failure blank_cell_notebook blank_cell_notebook"
  by (simp add: claimed_markdown_failure_def untranslated_cells untranslated_facts str_def)
     (simp add: NotebookValidator_def blank_cell_notebook_def
        notebook_defs check_defs python_defs name_defs str_def)

section \<open>Writing the notebook back\<close>

lemma first_error_None: "first_error es = None \<longleftrightarrow> list_all (\<lambda>e. e = None) es"
  by (induction es rule: first_error.induct) simp_all

lemma writable_atoms [simp]:
  "writable n JNull" "writable n (JBool b)" "writable n (JInt i)"
  "writable n (JStr s) = encodable_str s"
  "\<not> writable 0 (JArr xs)" "\<not> writable 0 (JObj kv)"
  by (simp_all add: writable_def)

lemma first_error_Cons: "first_error (e # es) = None \<longleftrightarrow> e = None \<and> first_error es = None"
  by (cases e) simp_all

lemma writable_JArr [simp]: "writable (Suc n) (JArr xs) = list_all (writable n) xs"
  by (induction xs) (simp_all add: writable_def first_error_Cons)

lemma writable_JObj [simp]:
  "writable (Suc n) (JObj kv) = list_all (\<lambda>(k, v). encodable_str k \<and> writable n v) kv"
  by (induction kv) (auto simp: writable_def first_error_Cons split: if_splits)

lemma writable_JArr_pos:
  "0 < n \<Longrightarrow> writable n (JArr xs) = list_all (writable (n - 1)) xs"
  by (cases n) simp_all

lemma writable_JObj_pos:
  "0 < n \<Longrightarrow> writable n (JObj kv) =
     list_all (\<lambda>(k, v). encodable_str k \<and> writable (n - 1) v) kv"
  by (cases n) simp_all

lemma dump_error_JArr_pos:
  "0 < n \<Longrightarrow> dump_error n (JArr xs) = first_error (map (dump_error (n - 1)) xs)"
  by (cases n) simp_all

lemma dump_error_JObj_pos:
  "0 < n \<Longrightarrow> dump_error n (JObj kv) =
     first_error (map (\<lambda>(k, v). if encodable_str k then dump_error (n - 1) v
                                else Some UnicodeEncodeError) kv)"
  by (cases n) (simp_all cong: if_cong)

lemma encodable_str_str [simp]: "encodable_str (str s)"
proof -
  have "of_char c < (55296 :: nat)" for c :: char
    using nat_of_char_less_256 [of c] by linarith
  then show ?thesis
    by (simp add: encodable_str_def str_def list_all_iff)
qed

lemma encodable_names [simp]:
  "encodable_str k_cells" "encodable_str k_outputs" "encodable_str k_execution_count"
  "encodable_str k_cell_type" "encodable_str k_source" "encodable_str k_metadata"
  "encodable_str s_code" "encodable_str s_markdown"
  by (simp_all add: k_cells_def k_outputs_def k_execution_count_def k_cell_type_def
        k_source_def k_metadata_def s_code_def s_markdown_def)

lemma writable_update_list:
  "list_all (\<lambda>(k, v). encodable_str k \<and> writable n v) kv \<Longrightarrow>
     encodable_str k \<Longrightarrow> writable n v \<Longrightarrow>
     list_all (\<lambda>(k, v). encodable_str k \<and> writable n v) (AList.update k v kv)"
  by (induction kv) auto

lemma writable_map_of:
  "list_all (\<lambda>(k, v). encodable_str k \<and> writable n v) kv \<Longrightarrow> map_of kv k = Some v \<Longrightarrow>
     writable n v"
  by (auto simp: list_all_iff dest!: map_of_SomeD)

lemma writable_JObj_Suc: "writable n (JObj kv) \<Longrightarrow> \<exists>m. n = Suc m"
  by (cases n) simp_all

lemma writable_JArr_Suc: "writable n (JArr xs) \<Longrightarrow> \<exists>m. n = Suc m"
  by (cases n) simp_all

lemma writable_synced_cell:
  assumes "writable n orig_cell" "writable n trans_cell"
  shows "writable n (synced_cell orig_cell trans_cell)"
proof (cases "\<exists>okv tkv. orig_cell = JObj okv \<and> trans_cell = JObj tkv")
  case False
  then show ?thesis
    using assms(2) by (auto simp: synced_cell_def split: json.splits)
next
  case True
  then obtain okv tkv where o: "orig_cell = JObj okv" and t: "trans_cell = JObj tkv"
    by blast
  obtain m where n: "n = Suc m"
    using assms(1) writable_JObj_Suc unfolding o by blast
  have ol: "list_all (\<lambda>(k, v). encodable_str k \<and> writable m v) okv"
    and tl: "list_all (\<lambda>(k, v). encodable_str k \<and> writable m v) tkv"
    using assms unfolding o t n by simp_all
  have outs: "list_all (\<lambda>(k, v). encodable_str k \<and> writable m v)
                ((case map_of okv k_outputs of
                    Some (JArr (out # outs)) \<Rightarrow> AList.update k_outputs (JArr (out # outs))
                  | _ \<Rightarrow> id) tkv)"
    using tl writable_map_of [OF ol, of k_outputs]
    by (auto split: option.splits json.splits list.splits intro!: writable_update_list)
  have "list_all (\<lambda>(k, v). encodable_str k \<and> writable m v)
          ((case map_of okv k_execution_count of
              None \<Rightarrow> id
            | Some execution_count \<Rightarrow> AList.update k_execution_count execution_count)
           ((case map_of okv k_outputs of
               Some (JArr (out # outs)) \<Rightarrow> AList.update k_outputs (JArr (out # outs))
             | _ \<Rightarrow> id) tkv))"
    using outs writable_map_of [OF ol, of k_execution_count]
    by (auto split: option.splits intro!: writable_update_list)
  then show ?thesis
    using assms(2) unfolding o t n by (simp add: synced_cell_def)
qed

lemma writable_cells_of:
  assumes "writable n nb"
  shows "list_all (writable (n - 2)) (cells_of nb)"
proof (cases "cells_of nb = []")
  case True
  then show ?thesis by simp
next
  case False
  then obtain kv where nb: "nb = JObj kv" and c: "map_of kv k_cells = Some (JArr (cells_of nb))"
    by (cases nb) (auto simp: cells_of_def field_def split: option.splits json.splits)
  obtain m where n: "n = Suc m"
    using assms writable_JObj_Suc unfolding nb by blast
  have "writable m (JArr (cells_of nb))"
    using assms c unfolding n nb by (auto intro: writable_map_of)
  moreover then obtain p where "m = Suc p"
    using writable_JArr_Suc by blast
  ultimately show ?thesis
    by (simp add: n)
qed

lemma writable_synced_notebook:
  assumes "wf_notebook translated_nb"
    and "writable n original_nb" "writable n translated_nb"
  shows "writable n (synced_notebook original_nb translated_nb)"
proof -
  obtain tkv where t: "translated_nb = JObj tkv"
    and c: "map_of tkv k_cells = Some (JArr (cells_of translated_nb))"
    using wf_notebook_cells [OF assms(1)] by blast
  obtain m where n: "n = Suc m"
    using assms(3) writable_JObj_Suc unfolding t by blast
  have tl: "list_all (\<lambda>(k, v). encodable_str k \<and> writable m v) tkv"
    using assms(3) unfolding t n by simp
  have "writable m (JArr (cells_of translated_nb))"
    using tl c by (rule writable_map_of)
  then obtain p where m: "m = Suc p"
    using writable_JArr_Suc by blast
  have ocs: "list_all (writable p) (cells_of original_nb)"
    and tcs: "list_all (writable p) (cells_of translated_nb)"
    using writable_cells_of [OF assms(2)] writable_cells_of [OF assms(3)]
    by (simp_all add: n m)
  have "list_all (writable p)
          (map (\<lambda>(orig_cell, trans_cell). synced_cell orig_cell trans_cell)
             (zip (cells_of original_nb) (cells_of translated_nb)) @
           drop (aligned original_nb translated_nb) (cells_of translated_nb))"
    using ocs tcs
    by (auto simp: list_all_iff intro!: writable_synced_cell
          dest: set_zip_leftD set_zip_rightD in_set_dropD)
  then have "writable m
               (JArr (map (\<lambda>(orig_cell, trans_cell). synced_cell orig_cell trans_cell)
                        (zip (cells_of original_nb) (cells_of translated_nb)) @
                      drop (aligned original_nb translated_nb) (cells_of translated_nb)))"
    by (simp add: m)
  then have "list_all (\<lambda>(k, v). encodable_str k \<and> writable m v)
               (AList.update k_cells
                  (JArr (map (\<lambda>(orig_cell, trans_cell). synced_cell orig_cell trans_cell)
                           (zip (cells_of original_nb) (cells_of translated_nb)) @
                         drop (aligned original_nb translated_nb) (cells_of translated_nb)))
                  tkv)"
    using tl by (intro writable_update_list) simp_all
  then show ?thesis
    unfolding synced_notebook_def t n by simp
qed

lemma sync_files_wf:
  assumes "wf_notebook original_nb" "wf_notebook translated_nb"
    and "writable depth_limit original_nb" "writable depth_limit translated_nb"
  shows "sync_notebook_outputs depth_limit (Some original_nb) (Some translated_nb) =
           (Some (synced_notebook original_nb translated_nb),
            Inr (length (filter (\<lambda>(orig_cell, trans_cell). copied_pair orig_cell trans_cell)
                           (zip (cells_of original_nb) (cells_of translated_nb)))))"
  using writable_synced_notebook [OF assms(2-4)]
  by (simp add: sync_notebook_outputs_def json_load_def json_dump_def writable_def
        sync_notebook_wf [OF assms(1,2)])


lemma writable_example:
  "writable 100 example_original" "writable 100 example_translated"
  "writable 100 long_translated"
  by (simp_all add: example_original_def example_translated_def long_translated_def
        notebook_def code_cell_def markdown_cell_def writable_JArr_pos writable_JObj_pos)

text \<open>
  A lone surrogate among the outputs of the original: the loop copies it into the
  translated notebook, the write raises, and the translated file is lost.
\<close>

lemma surrogate_write_fails:
  "wf_notebook surrogate_original \<and> wf_notebook surrogate_translated \<and>
   sync_notebook_outputs 100 (Some surrogate_original) (Some surrogate_translated) =
     (None, Inl UnicodeEncodeError)"
proof -
  have wf: "wf_notebook surrogate_original" "wf_notebook surrogate_translated"
    by (simp_all add: surrogate_original_def surrogate_translated_def notebook_def
          code_cell_def wf_notebook_def wf_cell_def)
  have cs: "cells_of (synced_notebook surrogate_original surrogate_translated) =
              [synced_cell (code_cell [''x = 1''] [JStr [55296]] (JInt 1))
                 (code_cell [''x = 1''] [] JNull)]"
    unfolding cells_of_synced_notebook [OF wf(2)]
    by (simp add: surrogate_original_def surrogate_translated_def aligned_def)
  have sc: "synced_cell (code_cell [''x = 1''] [JStr [55296]] (JInt 1))
              (code_cell [''x = 1''] [] JNull) =
            code_cell [''x = 1''] [JStr [55296]] (JInt 1)"
    by (simp add: synced_cell_def code_cell_def is_code_def)
  have "synced_notebook surrogate_original surrogate_translated =
          notebook [code_cell [''x = 1''] [JStr [55296]] (JInt 1)]"
    using synced_notebook_JObj [of surrogate_translated "[(k_cells, _), (k_metadata, JObj [])]"
            surrogate_original]
    by (simp add: cs sc) (simp add: surrogate_translated_def notebook_def)
  moreover have "dump_error 100 (notebook [code_cell [''x = 1''] [JStr [55296]] (JInt 1)]) =
                   Some UnicodeEncodeError"
    by (simp add: notebook_def code_cell_def dump_error_JArr_pos dump_error_JObj_pos
          encodable_str_def)
  ultimately show ?thesis
    using wf
    by (simp add: sync_notebook_outputs_def json_load_def json_dump_def
          sync_notebook_wf [OF wf])
qed

text \<open>
  The example pair under an interpreter that lets the encoder enter three containers
  only: the \<^verbatim>\<open>source\<close> list of the first cell is the fourth, the write raises, and the
  translated file is lost.
\<close>

lemma deep_write_fails:
  "sync_notebook_outputs 3 (Some example_original) (Some example_translated) =
     (None, Inl RecursionError)"
proof -
  have "cells_of (synced_notebook example_original example_translated) =
          [synced_cell (code_cell [''x = 1''] [JStr (str ''out1''), JStr (str ''out2'')] (JInt 1))
             (code_cell [''x = 1''] [] (JInt 7)),
           synced_cell (markdown_cell [''Title'']) (markdown_cell [''Titel'']),
           synced_cell (code_cell [''y = 2''] [] JNull)
             (code_cell [''y = 2''] [JStr (str ''old'')] (JInt 5))]"
    unfolding cells_of_synced_notebook [OF wf_example(2)]
    by (simp add: example_original_def example_translated_def aligned_def)
  then have "synced_notebook example_original example_translated =
          JObj [(k_cells,
                 JArr [synced_cell
                         (code_cell [''x = 1''] [JStr (str ''out1''), JStr (str ''out2'')] (JInt 1))
                         (code_cell [''x = 1''] [] (JInt 7)),
                       synced_cell (markdown_cell [''Title'']) (markdown_cell [''Titel'']),
                       synced_cell (code_cell [''y = 2''] [] JNull)
                         (code_cell [''y = 2''] [JStr (str ''old'')] (JInt 5))]),
                (k_metadata, JObj [])]"
    using synced_notebook_JObj [of example_translated "[(k_cells, _), (k_metadata, JObj [])]"
            example_original]
    by (simp add: example_translated_def notebook_def)
  moreover have "dump_error (Suc 0)
      (synced_cell (code_cell [''x = 1''] [JStr (str ''out1''), JStr (str ''out2'')] (JInt 1))
         (code_cell [''x = 1''] [] (JInt 7))) = Some RecursionError"
    by (simp add: synced_cell_def code_cell_def is_code_def)
  ultimately have "dump_error 3 (synced_notebook example_original example_translated) =
                     Some RecursionError"
    by (simp add: dump_error_JArr_pos dump_error_JObj_pos)
  then show ?thesis
    by (simp add: sync_notebook_outputs_def json_load_def json_dump_def
          sync_notebook_wf [OF wf_example])
qed

section \<open>The claims\<close>

subsection \<open>The synchronizer\<close>

text \<open>
  The claims about the synchronizer are stated for two files that hold notebooks of the
  data model (\<open>wf_notebook\<close>: a list of cells, each a dictionary, whose \<^verbatim>\<open>outputs\<close> is a list
  when present) and that the encoder can write (\<open>writable\<close>: no lone surrogate in a key or
  a string, lists and dictionaries nested no deeper than the interpreter allows). Without
  the second condition the write of line 43 can raise after the file has been emptied,
  as \<open>surrogate_write_fails\<close> and \<open>deep_write_fails\<close> show.
\<close>

text \<open>
  Claim C1. On such a pair \<open>sync_notebook_outputs\<close> writes a notebook and returns, and
  the number it returns is the number of indices below the length of the shorter cell
  list at which both cells are code cells and the original cell has a non-empty
  \<^verbatim>\<open>outputs\<close>. The count does not mention \<^verbatim>\<open>execution_count\<close>: copying it adds nothing.
\<close>

theorem sync_count_correct:
  assumes "wf_notebook original_nb" "wf_notebook translated_nb"
    and "writable depth_limit original_nb" "writable depth_limit translated_nb"
  shows "\<exists>translated'.
           sync_notebook_outputs depth_limit (Some original_nb) (Some translated_nb) =
             (Some translated',
              Inr (length (filter
                     (\<lambda>i. is_code (cells_of original_nb ! i) \<and>
                          is_code (cells_of translated_nb ! i) \<and>
                          nonempty_outputs (cells_of original_nb ! i))
                     [0..<min (length (cells_of original_nb))
                            (length (cells_of translated_nb))])))"
  unfolding sync_files_wf [OF assms] length_filter_zip
  by (simp add: copied_pair_def)

text \<open>The example pair has one such index, the first.\<close>

theorem sync_count_correct_witness:
  "wf_notebook example_original \<and> wf_notebook example_translated \<and>
   writable 100 example_original \<and> writable 100 example_translated \<and>
   (\<exists>translated'.
      sync_notebook_outputs 100 (Some example_original) (Some example_translated) =
        (Some translated', Inr 1))"
  using sync_count_correct [OF wf_example writable_example(1,2)]
  apply (simp add: wf_example writable_example)
  apply (simp add: example_original_def example_translated_def upt_rec [of 0] upt_rec [of 1]
           upt_rec [of 2] upt_rec [of 3])
  apply (simp add: is_code_def nonempty_outputs_def code_cell_def markdown_cell_def)
  done

text \<open>
  Claim C6. At an aligned index where both cells are code cells and the original cell has
  no \<^verbatim>\<open>outputs\<close> field or an empty one, the translated cell's \<^verbatim>\<open>outputs\<close> field in the
  notebook written back is what it was before.
\<close>

theorem sync_keeps_results:
  assumes "wf_notebook original_nb" "wf_notebook translated_nb"
    and "writable depth_limit original_nb" "writable depth_limit translated_nb"
    and "i < min (length (cells_of original_nb)) (length (cells_of translated_nb))"
    and "is_code (cells_of original_nb ! i)" "is_code (cells_of translated_nb ! i)"
    and "field (cells_of original_nb ! i) k_outputs = None \<or>
         field (cells_of original_nb ! i) k_outputs = Some (JArr [])"
  shows "\<exists>translated' n.
           sync_notebook_outputs depth_limit (Some original_nb) (Some translated_nb) =
             (Some translated', Inr n) \<and>
           field (cells_of translated' ! i) k_outputs =
             field (cells_of translated_nb ! i) k_outputs"
proof -
  have "\<not> nonempty_outputs (cells_of original_nb ! i)"
    using assms(8) by (auto simp: nonempty_outputs_def)
  then have "field (cells_of (synced_notebook original_nb translated_nb) ! i) k_outputs =
               field (cells_of translated_nb ! i) k_outputs"
    using assms(2,5)
    by (simp add: nth_cells_of_synced_notebook aligned_def synced_cell_outputs copied_pair_def)
  then show ?thesis
    unfolding sync_files_wf [OF assms(1-4)] by simp
qed

text \<open>Index 2 of the example: the original has no outputs, the translated cell keeps its
  own.\<close>

theorem sync_keeps_results_witness:
  "\<exists>translated' n.
     sync_notebook_outputs 100 (Some example_original) (Some example_translated) =
       (Some translated', Inr n) \<and>
     field (cells_of translated' ! 2) k_outputs = Some (JArr [JStr (str ''old'')])"
  using sync_keeps_results [OF wf_example writable_example(1,2), of 2]
  by (simp add: example_original_def example_translated_def is_code_def code_cell_def)

text \<open>
  Claim C7. The first run leaves a file holding a notebook and returns a count; a second
  run on the same original file and on the file the first run left returns the same
  count and leaves the same notebook again, so every translated cell keeps the
  \<^verbatim>\<open>outputs\<close> and \<^verbatim>\<open>execution_count\<close> it had after the first run.
\<close>

theorem sync_idempotent:
  assumes "wf_notebook original_nb" "wf_notebook translated_nb"
    and "writable depth_limit original_nb" "writable depth_limit translated_nb"
  shows "\<exists>translated' n.
           sync_notebook_outputs depth_limit (Some original_nb) (Some translated_nb) =
             (Some translated', Inr n) \<and>
           sync_notebook_outputs depth_limit (Some original_nb) (Some translated') =
             (Some translated', Inr n)"
  unfolding sync_files_wf [OF assms]
  by (simp add: sync_files_wf [OF assms(1) wf_synced_notebook [OF assms(1,2)] assms(3)
                  writable_synced_notebook [OF assms(2-4)]]
        synced_notebook_idem [OF assms(1,2)] count_synced_notebook [OF assms(2)])

text \<open>The example pair, run twice.\<close>

theorem sync_idempotent_witness:
  "\<exists>translated' n.
     sync_notebook_outputs 100 (Some example_original) (Some example_translated) =
       (Some translated', Inr n) \<and>
     sync_notebook_outputs 100 (Some example_original) (Some translated') =
       (Some translated', Inr n)"
  using sync_idempotent [OF wf_example writable_example(1,2)] .

text \<open>
  Claim C10. At an aligned index where both cells are code cells, the translated cell's
  \<^verbatim>\<open>execution_count\<close> in the notebook written back is the original cell's when the
  original cell has the field, whatever its value, and is unchanged when the original
  cell has not.
\<close>

theorem sync_copies_execution_count:
  assumes "wf_notebook original_nb" "wf_notebook translated_nb"
    and "writable depth_limit original_nb" "writable depth_limit translated_nb"
    and "i < min (length (cells_of original_nb)) (length (cells_of translated_nb))"
    and "is_code (cells_of original_nb ! i)" "is_code (cells_of translated_nb ! i)"
  shows "\<exists>translated' n.
           sync_notebook_outputs depth_limit (Some original_nb) (Some translated_nb) =
             (Some translated', Inr n) \<and>
           field (cells_of translated' ! i) k_execution_count =
             (case field (cells_of original_nb ! i) k_execution_count of
                Some execution_count \<Rightarrow> Some execution_count
              | None \<Rightarrow> field (cells_of translated_nb ! i) k_execution_count)"
proof -
  have "field (cells_of (synced_notebook original_nb translated_nb) ! i) k_execution_count =
          (case field (cells_of original_nb ! i) k_execution_count of
             Some execution_count \<Rightarrow> Some execution_count
           | None \<Rightarrow> field (cells_of translated_nb ! i) k_execution_count)"
    using assms(2,5-7)
    by (simp add: nth_cells_of_synced_notebook aligned_def synced_cell_execution_count)
  then show ?thesis
    unfolding sync_files_wf [OF assms(1-4)] by simp
qed

text \<open>Index 2 of the example: the original's \<^verbatim>\<open>null\<close> replaces the translated cell's 5.\<close>

theorem sync_copies_execution_count_witness:
  "\<exists>translated' n.
     sync_notebook_outputs 100 (Some example_original) (Some example_translated) =
       (Some translated', Inr n) \<and>
     field (cells_of translated' ! 2) k_execution_count = Some JNull \<and>
     field (cells_of example_translated ! 2) k_execution_count = Some (JInt 5)"
  using sync_copies_execution_count [OF wf_example writable_example(1,2), of 2]
  by (simp add: example_original_def example_translated_def is_code_def code_cell_def)

subsection \<open>The validator\<close>

text \<open>
  Claim C2 says that the mapping holds a boolean for each of the six checks and that the
  metadata check is true when it records no kernel mismatch. The code does not do this:
  on a translated pair with the same kernel on both sides every other check returns
  \<^verbatim>\<open>True\<close>, no issue is recorded, and the value under \<open>Metadata\<close> is \<^verbatim>\<open>None\<close>.
\<close>

theorem metadata_check_returns_None_example:
  "run_all_validations (NotebookValidator hello_original hello_translated) =
     ([(Cell_count, JBool True), (Cell_types, JBool True), (Code_cells, JBool True),
       (Markdown_translation, JBool True), (Outputs_present, JBool True), (Metadata, JNull)],
      \<lparr>original = hello_original, translated = hello_translated, issues = []\<rparr>)"
  unfolding run_all_validations_def run_validations_isolated
  by (simp add: validations_def isolated_def hello_checks)

text \<open>
  Claim C3 as stated fails: a markdown cell facing a code cell with the same text makes
  the check fail, although no position has markdown on both sides.
\<close>

theorem markdown_check_counts_other_kinds:
  "validate_markdown_translated (NotebookValidator untranslated_original untranslated_as_code) =
     Inr (JBool False, [All_markdown_identical 1]) \<and>
   \<not> claimed_markdown_failure untranslated_original untranslated_as_code"
  by (simp add: claimed_markdown_failure_def untranslated_cells untranslated_facts)
     (simp add: NotebookValidator_def untranslated_original_def untranslated_as_code_def
        notebook_defs check_defs python_defs name_defs str_def)

text \<open>
  Claim C3, amended. On notebooks whose cells are dictionaries with a joinable
  \<^verbatim>\<open>source\<close>, the markdown check looks at the aligned positions whose original cell is a
  markdown cell, whatever the kind of the translated cell. When none of these original
  cells is blank (empty, or white space only), the check returns \<^verbatim>\<open>False\<close> exactly when
  there is such a position and the joined sources are equal at every one of them; it then
  records one warning with their number, and otherwise records nothing.
\<close>

theorem markdown_check_follows_original_kind:
  assumes "readable_notebook original_nb" "readable_notebook translated_nb"
    and "list_all (\<lambda>(orig_cell, trans_cell).
                     is_markdown orig_cell \<longrightarrow> py_strip (source_text orig_cell) \<noteq> [])
           (zip (cells_of original_nb) (cells_of translated_nb))"
  shows "validate_markdown_translated (NotebookValidator original_nb translated_nb) =
           (let considered =
                  filter (\<lambda>(orig_cell, trans_cell). is_markdown orig_cell)
                    (zip (cells_of original_nb) (cells_of translated_nb))
            in if considered \<noteq> [] \<and>
                  list_all (\<lambda>(orig_cell, trans_cell).
                              source_text orig_cell = source_text trans_cell) considered
               then Inr (JBool False, [All_markdown_identical (length considered)])
               else Inr (JBool True, []))"
proof -
  have "list_all (\<lambda>(orig_cell, trans_cell).
                    py_strip (source_text orig_cell) \<noteq> [] \<and>
                    source_text orig_cell = source_text trans_cell)
          (filter (\<lambda>(orig_cell, trans_cell). is_markdown orig_cell)
             (zip (cells_of original_nb) (cells_of translated_nb))) =
        list_all (\<lambda>(orig_cell, trans_cell). source_text orig_cell = source_text trans_cell)
          (filter (\<lambda>(orig_cell, trans_cell). is_markdown orig_cell)
             (zip (cells_of original_nb) (cells_of translated_nb)))"
    using assms(3) by (auto simp: list_all_iff)
  then show ?thesis
    unfolding validate_markdown_translated_readable [OF assms(1,2)] Let_def by simp
qed

text \<open>The amended claim on the same pair.\<close>

theorem markdown_check_follows_original_kind_witness:
  "validate_markdown_translated (NotebookValidator untranslated_original untranslated_as_code) =
     Inr (JBool False, [All_markdown_identical 1])"
  using markdown_check_follows_original_kind [OF untranslated_readable]
  by (simp add: untranslated_cells untranslated_facts not_blank_same_text)

text \<open>
  Claim C4 as stated fails: an original code cell facing a markdown cell is flagged by
  the code check (the sources differ) and by the outputs check (the markdown cell has no
  outputs).
\<close>

theorem kind_mismatch_is_flagged:
  "is_code (cells_of kind_mismatch_original ! 0) \<and>
   \<not> is_code (cells_of kind_mismatch_translated ! 0) \<and>
   validate_code_cells (NotebookValidator kind_mismatch_original kind_mismatch_translated) =
     Inr (JBool False,
          [Code_cell_mismatches
             [Code_differs 0, Original_excerpt (str ''x = 1''),
              Translated_excerpt (str ''x = 2'')]]) \<and>
   validate_outputs_present (NotebookValidator kind_mismatch_original kind_mismatch_translated) =
     Inr (JBool False, [Missing_outputs [(0, 1)]])"
  by (simp add: kind_mismatch_cells kind_mismatch_facts)
     (simp add: NotebookValidator_def kind_mismatch_original_def kind_mismatch_translated_def
        notebook_defs check_defs python_defs name_defs str_def)

text \<open>
  Claim C4, amended. On notebooks whose cells are dictionaries with a joinable
  \<^verbatim>\<open>source\<close> and a list under \<^verbatim>\<open>outputs\<close>, both checks look at the aligned positions whose
  original cell is a code cell, whatever the kind of the translated cell. The code check
  flags exactly those of them where the two joined sources differ, the outputs check
  exactly those where the original has one output or more and the translated cell has
  none. Each check returns \<^verbatim>\<open>True\<close> exactly when it flags no position.
\<close>

theorem code_checks_follow_original_kind:
  assumes "readable_notebook original_nb" "readable_notebook translated_nb"
  shows "\<exists>code_issues output_issues.
           validate_code_cells (NotebookValidator original_nb translated_nb) =
             Inr (JBool (concat (map code_flagged code_issues) = []), code_issues) \<and>
           concat (map code_flagged code_issues) =
             filter (\<lambda>i. is_code (cells_of original_nb ! i) \<and>
                         source_text (cells_of original_nb ! i) \<noteq>
                           source_text (cells_of translated_nb ! i))
               [0..<aligned original_nb translated_nb] \<and>
           validate_outputs_present (NotebookValidator original_nb translated_nb) =
             Inr (JBool (concat (map outputs_flagged output_issues) = []), output_issues) \<and>
           concat (map outputs_flagged output_issues) =
             filter (\<lambda>i. is_code (cells_of original_nb ! i) \<and>
                         outputs_of (cells_of original_nb ! i) \<noteq> [] \<and>
                         outputs_of (cells_of translated_nb ! i) = [])
               [0..<aligned original_nb translated_nb]"
proof -
  let ?xs = "cells_of original_nb" and ?ys = "cells_of translated_nb"
  let ?cl = "concat (map (\<lambda>(j, orig_cell, trans_cell). code_lines j orig_cell trans_cell)
                       (List.enumerate 0 (zip ?xs ?ys)))"
  let ?ml = "concat (map (\<lambda>(j, orig_cell, trans_cell). missing_line j orig_cell trans_cell)
                       (List.enumerate 0 (zip ?xs ?ys)))"
  let ?ci = "if ?cl \<noteq> [] then [Code_cell_mismatches ?cl] else []"
  let ?oi = "if ?ml \<noteq> [] then [Missing_outputs ?ml] else []"
  have c1: "concat (map code_flagged ?ci) =
             filter (\<lambda>i. is_code (?xs ! i) \<and> source_text (?xs ! i) \<noteq> source_text (?ys ! i))
               [0..<aligned original_nb translated_nb]"
    using code_flagged_indices [of ?xs ?ys] code_lines_none [of ?xs ?ys]
    by (simp add: aligned_def)
  have c2: "validate_code_cells (NotebookValidator original_nb translated_nb) =
             Inr (JBool (concat (map code_flagged ?ci) = []), ?ci)"
    unfolding c1 validate_code_cells_readable [OF assms]
    using code_lines_none [of ?xs ?ys] by (simp add: aligned_def)
  have o1: "concat (map outputs_flagged ?oi) =
             filter (\<lambda>i. is_code (?xs ! i) \<and> outputs_of (?xs ! i) \<noteq> [] \<and>
                         outputs_of (?ys ! i) = [])
               [0..<aligned original_nb translated_nb]"
    using missing_flagged_indices [of ?xs ?ys] missing_none [of ?xs ?ys]
    by (simp add: aligned_def)
  have o2: "validate_outputs_present (NotebookValidator original_nb translated_nb) =
             Inr (JBool (concat (map outputs_flagged ?oi) = []), ?oi)"
    unfolding o1 validate_outputs_present_readable [OF assms]
    using missing_none [of ?xs ?ys] by (simp add: aligned_def)
  show ?thesis
    using c1 c2 o1 o2 by blast
qed

text \<open>The amended claim on the same pair: both checks fail and flag index 0.\<close>

theorem code_checks_follow_original_kind_witness:
  "\<exists>code_issues output_issues.
     validate_code_cells (NotebookValidator kind_mismatch_original kind_mismatch_translated) =
       Inr (JBool False, code_issues) \<and>
     concat (map code_flagged code_issues) = [0] \<and>
     validate_outputs_present (NotebookValidator kind_mismatch_original kind_mismatch_translated) =
       Inr (JBool False, output_issues) \<and>
     concat (map outputs_flagged output_issues) = [0]"
proof -
  obtain code_issues output_issues where
    c: "validate_code_cells (NotebookValidator kind_mismatch_original kind_mismatch_translated) =
          Inr (JBool (concat (map code_flagged code_issues) = []), code_issues)"
       "concat (map code_flagged code_issues) =
          filter (\<lambda>i. is_code (cells_of kind_mismatch_original ! i) \<and>
                      source_text (cells_of kind_mismatch_original ! i) \<noteq>
                        source_text (cells_of kind_mismatch_translated ! i))
            [0..<aligned kind_mismatch_original kind_mismatch_translated]"
    and
    p: "validate_outputs_present
          (NotebookValidator kind_mismatch_original kind_mismatch_translated) =
          Inr (JBool (concat (map outputs_flagged output_issues) = []), output_issues)"
       "concat (map outputs_flagged output_issues) =
          filter (\<lambda>i. is_code (cells_of kind_mismatch_original ! i) \<and>
                      outputs_of (cells_of kind_mismatch_original ! i) \<noteq> [] \<and>
                      outputs_of (cells_of kind_mismatch_translated ! i) = [])
            [0..<aligned kind_mismatch_original kind_mismatch_translated]"
    using code_checks_follow_original_kind [OF kind_mismatch_readable] by blast
  have c0: "concat (map code_flagged code_issues) = [0]"
    unfolding c(2) by (simp add: aligned_def kind_mismatch_cells kind_mismatch_facts)
  have p0: "concat (map outputs_flagged output_issues) = [0]"
    unfolding p(2) by (simp add: aligned_def kind_mismatch_cells kind_mismatch_facts)
  have c1: "validate_code_cells
              (NotebookValidator kind_mismatch_original kind_mismatch_translated) =
            Inr (JBool False, code_issues)"
    using c(1) unfolding c0 by simp
  have p1: "validate_outputs_present
              (NotebookValidator kind_mismatch_original kind_mismatch_translated) =
            Inr (JBool False, output_issues)"
    using p(1) unfolding p0 by simp
  show ?thesis
    using c1 c0 p1 p0 by blast
qed

text \<open>
  Claim C5. Whatever the two notebooks, \<open>run_all_validations\<close> leaves \<^verbatim>\<open>None\<close> or \<^verbatim>\<open>False\<close>
  under \<open>Metadata\<close> (\<^verbatim>\<open>None\<close> when \<open>validate_metadata\<close> ends, \<^verbatim>\<open>False\<close> when it raises),
  so \<^verbatim>\<open>all(results.values())\<close> is false and no file gets the PASS status.
\<close>

theorem metadata_check_never_true:
  "(map_of (fst (run_all_validations self)) Metadata = Some JNull \<or>
    map_of (fst (run_all_validations self)) Metadata = Some (JBool False)) \<and>
   \<not> all_passed (fst (run_all_validations self)) \<and>
   \<not> status_pass original_nb translated_nb"
  using metadata_result [of self] not_all_passed [of self]
    not_all_passed [of "NotebookValidator original_nb translated_nb"]
  by (auto simp: status_pass_def split: prod.splits)

text \<open>A translated pair on which every check passes is not reported with the PASS
  status.\<close>

theorem metadata_check_never_true_witness:
  "map_of (fst (run_all_validations (NotebookValidator hello_original hello_translated)))
     Metadata = Some JNull \<and>
   \<not> all_passed (fst (run_all_validations (NotebookValidator hello_original hello_translated))) \<and>
   \<not> status_pass hello_original hello_translated"
  using metadata_check_never_true
          [of "NotebookValidator hello_original hello_translated" hello_original hello_translated]
  unfolding run_all_validations_def run_validations_isolated
  by (simp add: validations_def isolated_def hello_checks)

text \<open>
  Claim C9. The results and the issues of \<open>run_all_validations\<close> are, check by check, what
  each check gives when run alone on the pair: a check that raises is recorded as
  \<^verbatim>\<open>False\<close> with one issue holding its exception, a check that returns is recorded with
  its return value and its own issues; no check changes what another one gives.
\<close>

theorem checks_isolated:
  "run_all_validations (NotebookValidator original_nb translated_nb) =
     (map (\<lambda>(name, validation_func).
             (name, fst (isolated name validation_func original_nb translated_nb)))
        validations,
      \<lparr>original = original_nb, translated = translated_nb,
       issues = concat (map (\<lambda>(name, validation_func).
                               snd (isolated name validation_func original_nb translated_nb))
                          validations)\<rparr>)"
  unfolding run_all_validations_def by (rule run_validations_isolated)

text \<open>A pair whose original has \<^verbatim>\<open>"metadata": null\<close>: only the metadata check raises, and
  only its entry and its issue show it.\<close>

theorem checks_isolated_witness:
  "run_all_validations (NotebookValidator null_metadata_original hello_translated) =
     ([(Cell_count, JBool True), (Cell_types, JBool True), (Code_cells, JBool True),
       (Markdown_translation, JBool True), (Outputs_present, JBool True),
       (Metadata, JBool False)],
      \<lparr>original = null_metadata_original, translated = hello_translated,
       issues = [Error_in Metadata AttributeError]\<rparr>)"
  using checks_isolated [of null_metadata_original hello_translated]
  by (simp add: validations_def isolated_def null_metadata_checks)

subsection \<open>Both components\<close>

text \<open>
  Claim C8. With \<open>m\<close> the length of the shorter cell list, the synchronizer writes back
  a notebook with as many cells as the translated one had and with the cells from index
  \<open>m\<close> on unchanged; and the cell-type, code-cell, markdown and outputs checks give the
  same return value and the same issues on any other pair that has the same \<open>m\<close> and
  the same cells below \<open>m\<close>.
\<close>

theorem coverage_bound:
  assumes "wf_notebook original_nb" "wf_notebook translated_nb"
    and "writable depth_limit original_nb" "writable depth_limit translated_nb"
    and "has_cell_list original'" "has_cell_list translated'"
    and "aligned original' translated' = aligned original_nb translated_nb"
    and "take (aligned original_nb translated_nb) (cells_of original') =
         take (aligned original_nb translated_nb) (cells_of original_nb)"
    and "take (aligned original_nb translated_nb) (cells_of translated') =
         take (aligned original_nb translated_nb) (cells_of translated_nb)"
  shows "(\<exists>synced n.
            sync_notebook_outputs depth_limit (Some original_nb) (Some translated_nb) =
              (Some synced, Inr n) \<and>
            length (cells_of synced) = length (cells_of translated_nb) \<and>
            drop (aligned original_nb translated_nb) (cells_of synced) =
              drop (aligned original_nb translated_nb) (cells_of translated_nb)) \<and>
         validate_cell_types \<lparr>original = original', translated = translated', issues = iss\<rparr> =
           validate_cell_types
             \<lparr>original = original_nb, translated = translated_nb, issues = iss\<rparr> \<and>
         validate_code_cells \<lparr>original = original', translated = translated', issues = iss\<rparr> =
           validate_code_cells
             \<lparr>original = original_nb, translated = translated_nb, issues = iss\<rparr> \<and>
         validate_markdown_translated
             \<lparr>original = original', translated = translated', issues = iss\<rparr> =
           validate_markdown_translated
             \<lparr>original = original_nb, translated = translated_nb, issues = iss\<rparr> \<and>
         validate_outputs_present
             \<lparr>original = original', translated = translated', issues = iss\<rparr> =
           validate_outputs_present
             \<lparr>original = original_nb, translated = translated_nb, issues = iss\<rparr>"
proof -
  have z: "zip_cells \<lparr>original = original', translated = translated', issues = iss\<rparr> =
           zip_cells \<lparr>original = original_nb, translated = translated_nb, issues = iss\<rparr>"
    using wf_notebook_has_cell_list [OF assms(1)] wf_notebook_has_cell_list [OF assms(2)]
      assms(5-9)
    by (rule zip_cells_prefix)
  have s: "\<exists>synced n.
            sync_notebook_outputs depth_limit (Some original_nb) (Some translated_nb) =
              (Some synced, Inr n) \<and>
            length (cells_of synced) = length (cells_of translated_nb) \<and>
            drop (aligned original_nb translated_nb) (cells_of synced) =
              drop (aligned original_nb translated_nb) (cells_of translated_nb)"
    unfolding sync_files_wf [OF assms(1-4)]
    by (simp add: length_cells_of_synced_notebook [OF assms(2)]
          drop_cells_of_synced_notebook [OF assms(2)])
  have c1: "validate_cell_types \<lparr>original = original', translated = translated', issues = iss\<rparr> =
           validate_cell_types
             \<lparr>original = original_nb, translated = translated_nb, issues = iss\<rparr>"
    by (simp add: validate_cell_types_def z cong: if_cong)
  have c2: "validate_code_cells \<lparr>original = original', translated = translated', issues = iss\<rparr> =
           validate_code_cells
             \<lparr>original = original_nb, translated = translated_nb, issues = iss\<rparr>"
    by (simp add: validate_code_cells_def z cong: if_cong)
  have c3: "validate_markdown_translated
             \<lparr>original = original', translated = translated', issues = iss\<rparr> =
           validate_markdown_translated
             \<lparr>original = original_nb, translated = translated_nb, issues = iss\<rparr>"
    by (simp add: validate_markdown_translated_def z cong: if_cong)
  have c4: "validate_outputs_present
             \<lparr>original = original', translated = translated', issues = iss\<rparr> =
           validate_outputs_present
             \<lparr>original = original_nb, translated = translated_nb, issues = iss\<rparr>"
    by (simp add: validate_outputs_present_def z cong: if_cong)
  show ?thesis
    using s c1 c2 c3 c4 by blast
qed

text \<open>
  Three original cells against four translated ones. The synchronizer writes the fourth
  translated cell back as it was, and the fourth translated cell can be replaced without
  any of the four checks noticing.
\<close>

theorem coverage_bound_witness:
  "(\<exists>synced n.
      sync_notebook_outputs 100 (Some example_original) (Some long_translated) =
        (Some synced, Inr n) \<and>
      length (cells_of synced) = 4 \<and>
      drop 3 (cells_of synced) = [code_cell [''z = 3''] [JStr (str ''kept'')] (JInt 9)]) \<and>
   validate_cell_types (NotebookValidator example_original altered_long_translated) =
     validate_cell_types (NotebookValidator example_original long_translated) \<and>
   validate_code_cells (NotebookValidator example_original altered_long_translated) =
     validate_code_cells (NotebookValidator example_original long_translated) \<and>
   validate_markdown_translated (NotebookValidator example_original altered_long_translated) =
     validate_markdown_translated (NotebookValidator example_original long_translated) \<and>
   validate_outputs_present (NotebookValidator example_original altered_long_translated) =
     validate_outputs_present (NotebookValidator example_original long_translated) \<and>
   altered_long_translated \<noteq> long_translated"
proof -
  have wf: "wf_notebook example_original" "wf_notebook long_translated"
    by (simp_all add: example_original_def long_translated_def
          notebook_def code_cell_def markdown_cell_def wf_notebook_def wf_cell_def)
  have hc: "has_cell_list example_original" "has_cell_list altered_long_translated"
    by (simp_all add: example_original_def altered_long_translated_def
          notebook_def has_cell_list_def)
  have m: "aligned example_original long_translated = 3"
    "aligned example_original altered_long_translated = 3"
    by (simp_all add: aligned_def example_original_def long_translated_def
          altered_long_translated_def)
  have t: "take 3 (cells_of altered_long_translated) = take 3 (cells_of long_translated)"
    by (simp add: long_translated_def altered_long_translated_def)
  have d: "drop 3 (cells_of long_translated) =
             [code_cell [''z = 3''] [JStr (str ''kept'')] (JInt 9)]"
    "length (cells_of long_translated) = 4"
    by (simp_all add: long_translated_def)
  have ne: "altered_long_translated \<noteq> long_translated"
    by (simp add: long_translated_def altered_long_translated_def notebook_def
          markdown_cell_def code_cell_def)
  show ?thesis
    using coverage_bound [OF wf writable_example(1,3) hc, of "[]"] m t d ne
    by (simp add: NotebookValidator_def)
qed

end
